theory Spec2Isabelle
  imports Main "HOL-Library.Option_ord" "HOL-Library.Multiset"
begin

section \<open>Content entry store: data model\<close>

text \<open>
  The module under study is the CMS data-access layer (\<^verbatim>\<open>getCmsCollection\<close>,
  \<^verbatim>\<open>getCmsEntry\<close>, \<^verbatim>\<open>getCmsEntryById\<close>, \<^verbatim>\<open>createCmsEntry\<close>,
  \<^verbatim>\<open>updateCmsEntry\<close>, \<^verbatim>\<open>deleteCmsEntry\<close> and the helper
  \<^verbatim>\<open>buildCmsRelationsQuery\<close>). It talks to a relational store through an ORM.
  The store is modelled as a record of tables, each table a list of rows in insertion
  order; every ORM call the module makes becomes a function on that state.

  Values of type \<^verbatim>\<open>unknown\<close> (the \<^verbatim>\<open>content\<close> and \<^verbatim>\<open>fields\<close> payloads) are JSON
  documents.
\<close>

datatype json =
    JNull
  | JBool bool
  | JNum int
  | JStr string
  | JArr "json list"
  | JObj "(string \<times> json) list"

text \<open>
  \<^verbatim>\<open>CMS_ENTRY_STATUS\<close> has the three stored values; \<^verbatim>\<open>CmsEntryStatus\<close> extends it
  with the query-only value \<^verbatim>\<open>'all'\<close>.
\<close>

datatype cms_entry_status = DRAFT | PUBLISHED | ARCHIVED

datatype CmsEntryStatus = Status cms_entry_status | All

type_synonym timestamp = int

text \<open>
  Modelled from the spec: the table declarations (\<^verbatim>\<open>cmsEntryTable\<close>,
  \<^verbatim>\<open>cmsEntryMediaTable\<close>, the media and user tables) are not among the sources. The
  rows carry the columns the module reads or writes, the timestamps the spec lists for
  an entry (\<^verbatim>\<open>createdAt\<close>, \<^verbatim>\<open>updatedAt\<close>, nullable \<^verbatim>\<open>publishedAt\<close>), and the
  columns of the result type \<^verbatim>\<open>GetCmsCollectionResult\<close>. The primary keys are named
  \<open>id_entry\<close>, \<open>id_em\<close>, \<open>id_media\<close> and \<open>id_user\<close>, since \<open>id\<close> is the identity
  function of HOL, and the \<^verbatim>\<open>fields\<close> column is \<open>fields_col\<close>, since the record
  package declares \<open>fields\<close> for every record. Constraints of the table declarations
  (primary key, unique index, foreign keys, \<^verbatim>\<open>NOT NULL\<close>) are not modelled: the store
  accepts every write.
\<close>

record CmsEntry =
  id_entry :: string
  collection :: string
  slug :: string
  title :: string
  content :: json
  fields_col :: json
  status :: cms_entry_status
  createdBy :: string
  createdAt :: timestamp
  updatedAt :: timestamp
  publishedAt :: "timestamp option"

record CmsEntryMedia =
  id_em :: string
  entryId :: string
  mediaId :: string
  position :: "int option"
  caption :: "string option"

record CmsMedia =
  id_media :: string
  fileName :: string
  mimeType :: string
  sizeInBytes :: int
  bucketKey :: string
  width :: "int option"
  height :: "int option"
  alt :: "string option"

record User =
  id_user :: string
  firstName :: "string option"
  lastName :: "string option"
  email :: "string option"
  avatar :: "string option"
  passwordHash :: "string option"

record CmsDb =
  cmsEntryTable :: "CmsEntry list"
  cmsEntryMediaTable :: "CmsEntryMedia list"
  cmsMediaTable :: "CmsMedia list"
  userTable :: "User list"

subsection \<open>The collection registry\<close>

record CmsCollection =
  coll_slug :: string
  label_singular :: string
  label_plural :: string

text \<open>
  \<^verbatim>\<open>cmsConfig.collections\<close> is an object literal keyed by collection identifier; its own
  keys are a finite map. The functions below take the registry as a parameter;
  \<open>cmsConfig\<close> is the one the repository ships.
\<close>

type_synonym CmsConfig = "string \<rightharpoonup> CmsCollection"

text \<open>
  A lookup \<^verbatim>\<open>cmsConfig.collections[collectionSlug]\<close> reads a property of the object: an
  own key gives its collection; a property name that every object inherits from
  \<^verbatim>\<open>Object.prototype\<close> gives a function (or, for \<^verbatim>\<open>__proto__\<close>, the prototype
  itself), which is truthy and has no \<^verbatim>\<open>slug\<close>; any other name gives \<^verbatim>\<open>undefined\<close>.
  The parameter type \<^verbatim>\<open>keyof typeof cmsConfig.collections\<close> admits own keys only, but it
  is not checked when the program runs.
\<close>

definition prototype_keys :: "string list" where
  "prototype_keys =
     [''constructor'', ''__proto__'', ''toString'', ''toLocaleString'', ''valueOf'',
      ''hasOwnProperty'', ''isPrototypeOf'', ''propertyIsEnumerable'',
      ''__defineGetter__'', ''__defineSetter__'', ''__lookupGetter__'', ''__lookupSetter__'']"

datatype 'a property = Own 'a | Inherited | Missing

definition lookup_collection :: "CmsConfig \<Rightarrow> string \<Rightarrow> CmsCollection property" where
  "lookup_collection cfg key =
     (case cfg key of
        Some coll \<Rightarrow> Own coll
      | None \<Rightarrow> if key \<in> set prototype_keys then Inherited else Missing)"

definition blogCollection :: CmsCollection where
  "blogCollection = \<lparr>coll_slug = ''blog'', label_singular = ''Blog'', label_plural = ''Blogs''\<rparr>"

definition cmsConfig :: CmsConfig where
  "cmsConfig = [''blog'' \<mapsto> blogCollection]"

subsection \<open>Errors\<close>

text \<open>
  The module signals failure by throwing \<^verbatim>\<open>Error\<close> with one of three messages; each
  message is a constructor. The other errors are thrown by the ORM or the store and
  propagate through the module: \<open>NoValuesToSet\<close> is the ORM's refusal of an update
  that sets nothing, \<open>UniqueConstraintViolation\<close> the store's refusal of a write that
  would give two entries the same (collection, slug), and \<open>StoreFailure\<close> any other
  exception of the store (a statement it cannot run, a transport error).
\<close>

datatype cms_error =
    CollectionNotFound string
  | DuplicateSlug string string
  | EntryNotFound string
  | NoValuesToSet
  | UniqueConstraintViolation
  | StoreFailure

text \<open>
  A JavaScript value that is a row, \<^verbatim>\<open>null\<close> or \<^verbatim>\<open>undefined\<close>. \<^verbatim>\<open>findFirst\<close> yields a
  row or \<^verbatim>\<open>undefined\<close> (\<open>of_query\<close>); \<^verbatim>\<open>x || null\<close> turns \<^verbatim>\<open>undefined\<close> into
  \<^verbatim>\<open>null\<close> (\<open>or_null\<close>). A type assertion \<^verbatim>\<open>x as T | null\<close> changes nothing.
\<close>

datatype 'a js_value = Undefined | Null | Value 'a

definition of_query :: "'a option \<Rightarrow> 'a js_value" where
  "of_query r = (case r of None \<Rightarrow> Undefined | Some v \<Rightarrow> Value v)"

definition or_null :: "'a option \<Rightarrow> 'a js_value" where
  "or_null r = (case r of None \<Rightarrow> Null | Some v \<Rightarrow> Value v)"

section \<open>The store operations the module calls\<close>

text \<open>
  \<^verbatim>\<open>eq(column, value)\<close> is a predicate on rows and \<^verbatim>\<open>and(...conditions)\<close> their
  conjunction.
\<close>

definition eq :: "('r \<Rightarrow> 'v) \<Rightarrow> 'v \<Rightarrow> 'r \<Rightarrow> bool" where
  "eq col v = (\<lambda>r. col r = v)"

definition and_conds :: "('r \<Rightarrow> bool) list \<Rightarrow> 'r \<Rightarrow> bool" where
  "and_conds cs = (\<lambda>r. list_all (\<lambda>c. c r) cs)"

text \<open>
  \<^verbatim>\<open>orderBy\<close> takes a list of terms \<^verbatim>\<open>asc(column)\<close> or \<^verbatim>\<open>desc(column)\<close>. Both sorts are
  stable (rows with equal keys keep their table order; SQL leaves that order open, and
  no theorem below depends on it). In ascending order a null sorts first, as in SQLite:
  that is the order of \<open>option\<close> with \<open>None\<close> least.
\<close>

datatype ('r, 'k) order_term = Asc "'r \<Rightarrow> 'k" | Desc "'r \<Rightarrow> 'k"

fun order_by1 :: "('r, 'k::linorder) order_term \<Rightarrow> 'r list \<Rightarrow> 'r list" where
  "order_by1 (Asc k) rows = sort_key k rows"
| "order_by1 (Desc k) rows = rev (sort_key k (rev rows))"

definition order_rows :: "('r, 'k::linorder) order_term list \<Rightarrow> 'r list \<Rightarrow> 'r list" where
  "order_rows ts rows = foldr order_by1 ts rows"

text \<open>The rows a \<^verbatim>\<open>where\<close> and an \<^verbatim>\<open>orderBy\<close> select, before any limit.\<close>

definition select_rows :: "('r \<Rightarrow> bool) \<Rightarrow> ('r, 'k::linorder) order_term list \<Rightarrow> 'r list \<Rightarrow> 'r list" where
  "select_rows wh ob rows = order_rows ob (filter wh rows)"

text \<open>
  \<^verbatim>\<open>findMany({where, orderBy, limit, offset})\<close>. The two numbers are integers (a
  JavaScript number with a fraction is not modelled); an undefined one is \<open>None\<close>. The
  ORM writes a \<^verbatim>\<open>LIMIT\<close> clause for a limit that is not negative and an \<^verbatim>\<open>OFFSET\<close>
  clause for an offset that is truthy, that is, not zero. SQLite has no \<^verbatim>\<open>OFFSET\<close>
  without \<^verbatim>\<open>LIMIT\<close>: such a statement is a syntax error and the call throws. A
  negative offset counts as zero.
\<close>

definition limit_clause :: "int option \<Rightarrow> int option" where
  "limit_clause lim = (case lim of None \<Rightarrow> None | Some n \<Rightarrow> if 0 \<le> n then Some n else None)"

definition offset_clause :: "int option \<Rightarrow> int option" where
  "offset_clause off = (case off of None \<Rightarrow> None | Some n \<Rightarrow> if n \<noteq> 0 then Some n else None)"

definition findMany ::
  "('r \<Rightarrow> bool) \<Rightarrow> ('r, 'k::linorder) order_term list \<Rightarrow> int option \<Rightarrow> int option \<Rightarrow> 'r list
     \<Rightarrow> cms_error + 'r list" where
  "findMany wh ob lim off rows =
     (let xs = select_rows wh ob rows in
      case limit_clause lim of
        None \<Rightarrow> (case offset_clause off of None \<Rightarrow> Inr xs | Some k \<Rightarrow> Inl StoreFailure)
      | Some n \<Rightarrow>
          (case offset_clause off of
             None \<Rightarrow> Inr (take (nat n) xs)
           | Some k \<Rightarrow> Inr (take (nat n) (drop (nat k) xs))))"

text \<open>\<^verbatim>\<open>findFirst({where})\<close> yields the first matching row in table order, or nothing.\<close>

definition findFirst :: "('r \<Rightarrow> bool) \<Rightarrow> 'r list \<Rightarrow> 'r option" where
  "findFirst wh rows = find wh rows"

section \<open>Relation loading\<close>

datatype user_column = UserId | FirstName | LastName | Email | Avatar | PasswordHash

text \<open>
  The value \<^verbatim>\<open>buildCmsRelationsQuery\<close> returns: an object with an optional
  \<^verbatim>\<open>createdByUser\<close> key (the columns to select) and an optional \<^verbatim>\<open>entryMedia\<close> key (an
  ordering and the nested \<^verbatim>\<open>with: { media: true }\<close>).
\<close>

record EntryMediaQuery =
  orderBy :: "(CmsEntryMedia, int option) order_term list"
  with_media :: bool

record CmsRelations =
  rel_createdByUser :: "user_column list option"
  rel_entryMedia :: "EntryMediaQuery option"

record CmsIncludeRelations =
  inc_createdByUser :: "bool option"
  inc_media :: "bool option"

text \<open>\<^verbatim>\<open>includeRelations?.flag\<close> used as a condition: true only for a present \<^verbatim>\<open>true\<close>.\<close>

definition truthy_flag :: "CmsIncludeRelations option \<Rightarrow> (CmsIncludeRelations \<Rightarrow> bool option) \<Rightarrow> bool" where
  "truthy_flag inc sel = (case inc of None \<Rightarrow> False | Some i \<Rightarrow> sel i = Some True)"

definition buildCmsRelationsQuery :: "CmsIncludeRelations option \<Rightarrow> CmsRelations" where
  "buildCmsRelationsQuery includeRelations =
     (let relations = \<lparr>rel_createdByUser = None, rel_entryMedia = None\<rparr>;
          relations = (if truthy_flag includeRelations inc_createdByUser
                       then relations\<lparr>rel_createdByUser :=
                              Some [UserId, FirstName, LastName, Email, Avatar]\<rparr>
                       else relations);
          relations = (if truthy_flag includeRelations inc_media
                       then relations\<lparr>rel_entryMedia :=
                              Some \<lparr>orderBy = [Asc position], with_media = True\<rparr>\<rparr>
                       else relations)
      in relations)"

text \<open>
  What the store does with a \<^verbatim>\<open>with\<close> clause. A selected user column is read from the
  user row (every value as an optional string); the creator is the user whose id is the
  entry's \<^verbatim>\<open>createdBy\<close>. The media associations of an entry are the rows of
  \<^verbatim>\<open>cmsEntryMediaTable\<close> with its \<^verbatim>\<open>entryId\<close>, in the requested order, each with its
  referenced media row when \<^verbatim>\<open>media: true\<close> is set.
\<close>

fun user_get :: "user_column \<Rightarrow> User \<Rightarrow> string option" where
  "user_get UserId u = Some (id_user u)"
| "user_get FirstName u = firstName u"
| "user_get LastName u = lastName u"
| "user_get Email u = email u"
| "user_get Avatar u = avatar u"
| "user_get PasswordHash u = passwordHash u"

definition select_columns :: "user_column list \<Rightarrow> User \<Rightarrow> (user_column \<times> string option) list" where
  "select_columns cols u = map (\<lambda>c. (c, user_get c u)) cols"

record EntryMediaResult =
  em_row :: CmsEntryMedia
  media :: "CmsMedia option"

record GetCmsCollectionResult =
  entry :: CmsEntry
  createdByUser :: "(user_column \<times> string option) list option"
  entryMedia :: "EntryMediaResult list option"

definition load_createdByUser :: "CmsDb \<Rightarrow> user_column list \<Rightarrow> CmsEntry \<Rightarrow> (user_column \<times> string option) list option" where
  "load_createdByUser db cols e =
     map_option (select_columns cols) (findFirst (eq id_user (createdBy e)) (userTable db))"

definition load_entryMedia :: "CmsDb \<Rightarrow> EntryMediaQuery \<Rightarrow> CmsEntry \<Rightarrow> EntryMediaResult list" where
  "load_entryMedia db q e =
     map (\<lambda>m. \<lparr>em_row = m,
               media = (if with_media q
                        then findFirst (eq id_media (mediaId m)) (cmsMediaTable db)
                        else None)\<rparr>)
       (select_rows (eq entryId (id_entry e)) (orderBy q) (cmsEntryMediaTable db))"

definition with_relations :: "CmsDb \<Rightarrow> CmsRelations \<Rightarrow> CmsEntry \<Rightarrow> GetCmsCollectionResult" where
  "with_relations db rels e =
     \<lparr>entry = e,
      createdByUser = (case rel_createdByUser rels of
                         None \<Rightarrow> None
                       | Some cols \<Rightarrow> load_createdByUser db cols e),
      entryMedia = map_option (\<lambda>q. load_entryMedia db q e) (rel_entryMedia rels)\<rparr>"

section \<open>Queries\<close>

text \<open>
  The queries are wrapped in \<^verbatim>\<open>cache\<close>, which memoises a call within one request by
  the identity of its argument; the wrapper does not change what a call computes from
  the store, and every call below is a fresh one. Named object parameters become
  positional arguments, an optional parameter an \<open>option\<close>.

  The status filter both queries share: the default is \<^verbatim>\<open>CMS_ENTRY_STATUS.PUBLISHED\<close>,
  and a condition on \<^verbatim>\<open>status\<close> is pushed unless the status is \<^verbatim>\<open>'all'\<close>.
\<close>

definition default_status :: "CmsEntryStatus option \<Rightarrow> CmsEntryStatus" where
  "default_status s = (case s of None \<Rightarrow> Status PUBLISHED | Some v \<Rightarrow> v)"

definition status_conds :: "CmsEntryStatus \<Rightarrow> (CmsEntry \<Rightarrow> bool) list" where
  "status_conds st = (case st of All \<Rightarrow> [] | Status v \<Rightarrow> [eq status v])"

text \<open>
  For a property name inherited from \<^verbatim>\<open>Object.prototype\<close> the guard
  \<^verbatim>\<open>if (!collection)\<close> does not fire; \<^verbatim>\<open>collection.slug\<close> is then \<^verbatim>\<open>undefined\<close>, and
  the store rejects the query built from it.
\<close>

definition getCmsCollection ::
  "CmsConfig \<Rightarrow> CmsDb \<Rightarrow> string \<Rightarrow> CmsEntryStatus option \<Rightarrow> CmsIncludeRelations option
     \<Rightarrow> int option \<Rightarrow> int option \<Rightarrow> cms_error + GetCmsCollectionResult list" where
  "getCmsCollection cfg db collectionSlug st includeRelations limit offset =
     (case lookup_collection cfg collectionSlug of
        Missing \<Rightarrow> Inl (CollectionNotFound collectionSlug)
      | Inherited \<Rightarrow> Inl StoreFailure
      | Own coll \<Rightarrow>
          (let whereConditions = [eq collection (coll_slug coll)] @ status_conds (default_status st)
           in case findMany (and_conds whereConditions) [Desc createdAt] limit offset
                     (cmsEntryTable db) of
                Inl err \<Rightarrow> Inl err
              | Inr entries \<Rightarrow>
                  Inr (map (with_relations db (buildCmsRelationsQuery includeRelations)) entries)))"

text \<open>
  \<^verbatim>\<open>getCmsEntry\<close> and \<^verbatim>\<open>getCmsEntryById\<close> return what \<^verbatim>\<open>findFirst\<close> gave them,
  through a type assertion: a row or \<^verbatim>\<open>undefined\<close>.
\<close>

definition getCmsEntry ::
  "CmsConfig \<Rightarrow> CmsDb \<Rightarrow> string \<Rightarrow> string \<Rightarrow> CmsEntryStatus option \<Rightarrow> CmsIncludeRelations option
     \<Rightarrow> cms_error + GetCmsCollectionResult js_value" where
  "getCmsEntry cfg db collectionSlug sl st includeRelations =
     (case lookup_collection cfg collectionSlug of
        Missing \<Rightarrow> Inl (CollectionNotFound collectionSlug)
      | Inherited \<Rightarrow> Inl StoreFailure
      | Own coll \<Rightarrow>
          (let whereConditions = [eq collection (coll_slug coll), eq slug sl]
                                   @ status_conds (default_status st);
               found = findFirst (and_conds whereConditions) (cmsEntryTable db)
           in Inr (of_query
                     (map_option (with_relations db (buildCmsRelationsQuery includeRelations))
                        found))))"

definition getCmsEntryById ::
  "CmsDb \<Rightarrow> string \<Rightarrow> CmsIncludeRelations option \<Rightarrow> GetCmsCollectionResult js_value" where
  "getCmsEntryById db i includeRelations =
     of_query (map_option (with_relations db (buildCmsRelationsQuery includeRelations))
                 (findFirst (eq id_entry i) (cmsEntryTable db)))"

section \<open>Mutations\<close>

text \<open>
  A mutation returns its outcome (the thrown error or the returned value) together with
  the state of the store when it returns or throws. The id and the timestamps of a new
  row are generated by the store; they are the parameters \<open>newId\<close> and \<open>now\<close>.
\<close>

record CreateCmsEntryParams =
  c_collectionSlug :: string
  c_slug :: string
  c_title :: string
  c_content :: json
  c_fields :: json
  c_status :: "cms_entry_status option"
  c_createdBy :: string

text \<open>
  Modelled from the spec: the column defaults of \<^verbatim>\<open>cmsEntryTable\<close> are part of the
  missing table declaration. A column that \<^verbatim>\<open>values({...})\<close> leaves out takes its
  default: a generated id, the insertion time for both timestamps, and null for the
  nullable \<^verbatim>\<open>publishedAt\<close>.
\<close>

definition insert_values ::
  "string \<Rightarrow> timestamp \<Rightarrow> string \<Rightarrow> CreateCmsEntryParams \<Rightarrow> cms_entry_status \<Rightarrow> CmsEntry" where
  "insert_values newId now coll p st =
     \<lparr>id_entry = newId, collection = coll, slug = c_slug p, title = c_title p,
      content = c_content p, fields_col = c_fields p, status = st,
      createdBy = c_createdBy p, createdAt = now, updatedAt = now, publishedAt = None\<rparr>"

text \<open>
  Modelled from the spec: the store enforces the uniqueness of (collection, slug) among
  the entries. An insert of a row whose pair some row already holds fails with a
  constraint violation and writes nothing.
\<close>

definition slug_key :: "CmsEntry \<Rightarrow> string \<times> string" where
  "slug_key e = (collection e, slug e)"

definition insert_returning :: "CmsEntry \<Rightarrow> CmsDb \<Rightarrow> (cms_error + CmsEntry) \<times> CmsDb" where
  "insert_returning row db =
     (if slug_key row \<in> set (map slug_key (cmsEntryTable db))
      then (Inl UniqueConstraintViolation, db)
      else (Inr row, db\<lparr>cmsEntryTable := cmsEntryTable db @ [row]\<rparr>))"

definition createCmsEntry ::
  "CmsConfig \<Rightarrow> string \<Rightarrow> timestamp \<Rightarrow> CmsDb \<Rightarrow> CreateCmsEntryParams
     \<Rightarrow> (cms_error + CmsEntry) \<times> CmsDb" where
  "createCmsEntry cfg newId now db p =
     (let st = (case c_status p of None \<Rightarrow> DRAFT | Some v \<Rightarrow> v) in
      case lookup_collection cfg (c_collectionSlug p) of
        Missing \<Rightarrow> (Inl (CollectionNotFound (c_collectionSlug p)), db)
      | Inherited \<Rightarrow> (Inl StoreFailure, db)
      | Own coll \<Rightarrow>
          (case findFirst (and_conds [eq collection (coll_slug coll), eq slug (c_slug p)])
                  (cmsEntryTable db) of
             Some existingEntry \<Rightarrow> (Inl (DuplicateSlug (c_slug p) (coll_slug coll)), db)
           | None \<Rightarrow> insert_returning (insert_values newId now (coll_slug coll) p st) db))"

record UpdateCmsEntryParams =
  u_id :: string
  u_slug :: "string option"
  u_title :: "string option"
  u_content :: "json option"
  u_fields :: "json option"
  u_status :: "cms_entry_status option"

text \<open>
  \<^verbatim>\<open>.set({slug: slug, title: title, ...})\<close>: the ORM leaves a key whose value is
  \<^verbatim>\<open>undefined\<close> out of the \<^verbatim>\<open>SET\<close> clause, so the column keeps its value.
  When every value is \<^verbatim>\<open>undefined\<close>, \<^verbatim>\<open>.set\<close> throws (no values to set) before
  any statement is sent: \<open>nothing_supplied\<close> is that case.
  Modelled from the spec: \<^verbatim>\<open>updatedAt\<close> is refreshed by the table declaration on every
  update (the module itself never writes it).
\<close>

definition nothing_supplied :: "UpdateCmsEntryParams \<Rightarrow> bool" where
  "nothing_supplied p =
     (u_slug p = None \<and> u_title p = None \<and> u_content p = None \<and> u_fields p = None
      \<and> u_status p = None)"

definition set_columns :: "UpdateCmsEntryParams \<Rightarrow> timestamp \<Rightarrow> CmsEntry \<Rightarrow> CmsEntry" where
  "set_columns p now e =
     e\<lparr>slug := (case u_slug p of None \<Rightarrow> slug e | Some v \<Rightarrow> v),
       title := (case u_title p of None \<Rightarrow> title e | Some v \<Rightarrow> v),
       content := (case u_content p of None \<Rightarrow> content e | Some v \<Rightarrow> v),
       fields_col := (case u_fields p of None \<Rightarrow> fields_col e | Some v \<Rightarrow> v),
       status := (case u_status p of None \<Rightarrow> status e | Some v \<Rightarrow> v),
       updatedAt := now\<rparr>"

text \<open>
  \<^verbatim>\<open>update(table).set(...).where(cond).returning()\<close>: the new table and the rows that
  were updated.
\<close>

definition update_returning ::
  "('r \<Rightarrow> bool) \<Rightarrow> ('r \<Rightarrow> 'r) \<Rightarrow> 'r list \<Rightarrow> 'r list \<times> 'r list" where
  "update_returning wh f rows =
     (map (\<lambda>r. if wh r then f r else r) rows, map f (filter wh rows))"

text \<open>
  The guard \<^verbatim>\<open>slug && slug !== existingEntry.slug\<close>: an absent slug and the empty
  string are both falsy. \<open>slug_change\<close> is the slug to check when the guard holds.
\<close>

definition slug_change :: "string option \<Rightarrow> CmsEntry \<Rightarrow> string option" where
  "slug_change s existingEntry =
     (case s of
        None \<Rightarrow> None
      | Some v \<Rightarrow> if v \<noteq> [] \<and> v \<noteq> slug existingEntry then Some v else None)"

text \<open>
  Modelled from the spec: the store enforces the uniqueness of (collection, slug). An
  update that assigns the slug fails with a constraint violation, and writes nothing,
  when the updated rows would share a pair among themselves or with a row the statement
  does not touch.
\<close>

definition slug_index_conflict :: "CmsEntry list \<Rightarrow> CmsEntry list \<Rightarrow> bool" where
  "slug_index_conflict updated others =
     (\<not> distinct (map slug_key updated)
      \<or> set (map slug_key updated) \<inter> set (map slug_key others) \<noteq> {})"

text \<open>
  The update statement and \<^verbatim>\<open>return updatedEntry || null\<close>: \<^verbatim>\<open>.set\<close> throws when
  nothing is supplied; otherwise the statement runs and the function returns the first
  returned row, or null when the statement updated no row.
\<close>

definition update_statement ::
  "timestamp \<Rightarrow> CmsDb \<Rightarrow> UpdateCmsEntryParams \<Rightarrow> (cms_error + CmsEntry js_value) \<times> CmsDb" where
  "update_statement now db p =
     (if nothing_supplied p then (Inl NoValuesToSet, db)
      else
        (let (rows, returned) =
               update_returning (eq id_entry (u_id p)) (set_columns p now) (cmsEntryTable db)
         in if u_slug p \<noteq> None
               \<and> slug_index_conflict returned
                    (filter (\<lambda>r. \<not> eq id_entry (u_id p) r) (cmsEntryTable db))
            then (Inl UniqueConstraintViolation, db)
            else (Inr (or_null (case returned of [] \<Rightarrow> None
                                | updatedEntry # _ \<Rightarrow> Some updatedEntry)),
                  db\<lparr>cmsEntryTable := rows\<rparr>)))"

text \<open>
  \<^verbatim>\<open>updateCmsEntry\<close> awaits up to three store calls: the existence check, the
  conflict check (only when the guard holds) and the update. Other requests may write
  to the store while the function is suspended: \<open>env1\<close> is what they do after the
  existence check and \<open>env2\<close> what they do after the conflict check. The sequential
  function \<open>updateCmsEntry\<close> has no interference.
\<close>

definition updateCmsEntry_run ::
  "(CmsDb \<Rightarrow> CmsDb) \<Rightarrow> (CmsDb \<Rightarrow> CmsDb) \<Rightarrow> timestamp \<Rightarrow> CmsDb \<Rightarrow> UpdateCmsEntryParams
     \<Rightarrow> (cms_error + CmsEntry js_value) \<times> CmsDb" where
  "updateCmsEntry_run env1 env2 now db p =
     (case findFirst (eq id_entry (u_id p)) (cmsEntryTable db) of
        None \<Rightarrow> (Inl (EntryNotFound (u_id p)), db)
      | Some existingEntry \<Rightarrow>
          (let db1 = env1 db in
           case slug_change (u_slug p) existingEntry of
             None \<Rightarrow> update_statement now db1 p
           | Some newSlug \<Rightarrow>
               (case findFirst (and_conds [eq collection (collection existingEntry),
                                           eq slug newSlug]) (cmsEntryTable db1) of
                  Some conflictingEntry \<Rightarrow>
                    (Inl (DuplicateSlug newSlug (collection existingEntry)), db1)
                | None \<Rightarrow> update_statement now (env2 db1) p)))"

definition updateCmsEntry ::
  "timestamp \<Rightarrow> CmsDb \<Rightarrow> UpdateCmsEntryParams \<Rightarrow> (cms_error + CmsEntry js_value) \<times> CmsDb" where
  "updateCmsEntry = updateCmsEntry_run (\<lambda>d. d) (\<lambda>d. d)"

text \<open>
  \<^verbatim>\<open>deleteCmsEntry\<close> awaits three store calls: the existence check (call 0), the
  delete of the media associations (call 1) and the delete of the entry (call 2). The
  store may fail a call: \<open>fails k\<close> says that call \<open>k\<close> throws, without effect on the
  store, and the exception propagates. The function \<open>deleteCmsEntry\<close> runs with a store
  that does not fail.
\<close>

definition deleteCmsEntry_run ::
  "(nat \<Rightarrow> bool) \<Rightarrow> CmsDb \<Rightarrow> string \<Rightarrow> (cms_error + unit) \<times> CmsDb" where
  "deleteCmsEntry_run fails db i =
     (if fails 0 then (Inl StoreFailure, db)
      else case findFirst (eq id_entry i) (cmsEntryTable db) of
        None \<Rightarrow> (Inl (EntryNotFound i), db)
      | Some existingEntry \<Rightarrow>
          (if fails 1 then (Inl StoreFailure, db)
           else
             (let db1 = db\<lparr>cmsEntryMediaTable :=
                            filter (\<lambda>m. \<not> eq entryId i m) (cmsEntryMediaTable db)\<rparr>
              in if fails 2 then (Inl StoreFailure, db1)
                 else (Inr (), db1\<lparr>cmsEntryTable :=
                                     filter (\<lambda>e. \<not> eq id_entry i e) (cmsEntryTable db1)\<rparr>))))"

definition deleteCmsEntry :: "CmsDb \<Rightarrow> string \<Rightarrow> (cms_error + unit) \<times> CmsDb" where
  "deleteCmsEntry = deleteCmsEntry_run (\<lambda>k. False)"

section \<open>Specification predicates\<close>

text \<open>
  The filter of the specification, in its words: the collection equals the slug, and
  the status equals the requested status unless the request is \<^verbatim>\<open>'all'\<close>, the default
  being published.
\<close>

definition spec_filter :: "string \<Rightarrow> CmsEntryStatus option \<Rightarrow> CmsEntry \<Rightarrow> bool" where
  "spec_filter cslug st e =
     (collection e = cslug \<and>
      (case st of
         None \<Rightarrow> status e = PUBLISHED
       | Some All \<Rightarrow> True
       | Some (Status v) \<Rightarrow> status e = v))"

text \<open>Newest first: the creation times never increase along the list.\<close>

definition newest_first :: "CmsEntry list \<Rightarrow> bool" where
  "newest_first es = sorted_wrt (\<lambda>a b. createdAt b \<le> createdAt a) es"

text \<open>
  The window a limit and an offset cut out of a list: the offset, when given, skips
  that many elements, and the limit keeps at most that many of the rest.
\<close>

definition window :: "int \<Rightarrow> int option \<Rightarrow> 'a list \<Rightarrow> 'a list" where
  "window lim off xs =
     take (nat lim) (case off of None \<Rightarrow> xs | Some k \<Rightarrow> drop (nat k) xs)"

text \<open>An \<^verbatim>\<open>includeRelations\<close> flag is set when the object is given and the flag is true.\<close>

definition flag_set :: "CmsIncludeRelations option \<Rightarrow> (CmsIncludeRelations \<Rightarrow> bool option) \<Rightarrow> bool" where
  "flag_set inc sel = (inc \<noteq> None \<and> sel (the inc) = Some True)"

text \<open>
  An update in the words of the specification: the key columns are untouched, every
  unsupplied attribute retains its prior value, and a supplied one takes the supplied
  value. Nothing is said of \<^verbatim>\<open>updatedAt\<close>.
\<close>

definition retains_unsupplied :: "UpdateCmsEntryParams \<Rightarrow> CmsEntry \<Rightarrow> CmsEntry \<Rightarrow> bool" where
  "retains_unsupplied p old new =
     (id_entry new = id_entry old \<and> collection new = collection old
      \<and> createdBy new = createdBy old \<and> createdAt new = createdAt old
      \<and> publishedAt new = publishedAt old
      \<and> (u_slug p = None \<longrightarrow> slug new = slug old)
      \<and> (\<forall>v. u_slug p = Some v \<longrightarrow> slug new = v)
      \<and> (u_title p = None \<longrightarrow> title new = title old)
      \<and> (\<forall>v. u_title p = Some v \<longrightarrow> title new = v)
      \<and> (u_content p = None \<longrightarrow> content new = content old)
      \<and> (\<forall>v. u_content p = Some v \<longrightarrow> content new = v)
      \<and> (u_fields p = None \<longrightarrow> fields_col new = fields_col old)
      \<and> (\<forall>v. u_fields p = Some v \<longrightarrow> fields_col new = v)
      \<and> (u_status p = None \<longrightarrow> status new = status old)
      \<and> (\<forall>v. u_status p = Some v \<longrightarrow> status new = v))"

text \<open>No two entries share the same (collection, slug).\<close>

definition unique_slugs :: "CmsEntry list \<Rightarrow> bool" where
  "unique_slugs es = distinct (map (\<lambda>e. (collection e, slug e)) es)"

section \<open>Sample data\<close>

text \<open>The scenario of the specification: a draft blog entry created in an empty store.\<close>

definition empty_db :: CmsDb where
  "empty_db = \<lparr>cmsEntryTable = [], cmsEntryMediaTable = [], cmsMediaTable = [], userTable = []\<rparr>"

definition hello_params :: CreateCmsEntryParams where
  "hello_params =
     \<lparr>c_collectionSlug = ''blog'', c_slug = ''hello-world'', c_title = ''Hello'',
      c_content = JObj [], c_fields = JObj [], c_status = Some DRAFT, c_createdBy = ''u1''\<rparr>"

definition hello_entry :: CmsEntry where
  "hello_entry =
     \<lparr>id_entry = ''e1'', collection = ''blog'', slug = ''hello-world'', title = ''Hello'',
      content = JObj [], fields_col = JObj [], status = DRAFT, createdBy = ''u1'',
      createdAt = 100, updatedAt = 100, publishedAt = None\<rparr>"

definition hello_db :: CmsDb where
  "hello_db = empty_db\<lparr>cmsEntryTable := [hello_entry]\<rparr>"

text \<open>An update that supplies nothing but the id, and updates of one attribute.\<close>

definition no_changes :: "string \<Rightarrow> UpdateCmsEntryParams" where
  "no_changes i =
     \<lparr>u_id = i, u_slug = None, u_title = None, u_content = None, u_fields = None,
      u_status = None\<rparr>"

definition publish_params :: UpdateCmsEntryParams where
  "publish_params = (no_changes ''e1'')\<lparr>u_status := Some PUBLISHED\<rparr>"

definition retitle_params :: UpdateCmsEntryParams where
  "retitle_params = (no_changes ''e1'')\<lparr>u_title := Some ''Hello again''\<rparr>"

text \<open>
  Interference and faults: a concurrent \<^verbatim>\<open>deleteCmsEntry\<close> of the entry, no
  interference, and a store that fails the second delete statement.
\<close>

definition concurrent_delete :: "CmsDb \<Rightarrow> CmsDb" where
  "concurrent_delete d = snd (deleteCmsEntry d ''e1'')"

definition no_interference :: "CmsDb \<Rightarrow> CmsDb" where
  "no_interference d = d"

definition fails_second_delete :: "nat \<Rightarrow> bool" where
  "fails_second_delete k = (k = 2)"

text \<open>A store with users, media, associations and three blog entries.\<close>

definition alice :: User where
  "alice = \<lparr>id_user = ''u1'', firstName = Some ''Alice'', lastName = None,
            email = Some ''alice@example.com'', avatar = None,
            passwordHash = Some ''secret-hash''\<rparr>"

definition photo :: CmsMedia where
  "photo = \<lparr>id_media = ''m1'', fileName = ''photo.png'', mimeType = ''image/png'',
            sizeInBytes = 2048, bucketKey = ''k1'', width = Some 640, height = Some 480,
            alt = None\<rparr>"

definition chart :: CmsMedia where
  "chart = \<lparr>id_media = ''m2'', fileName = ''chart.svg'', mimeType = ''image/svg+xml'',
            sizeInBytes = 512, bucketKey = ''k2'', width = None, height = None,
            alt = Some ''A chart''\<rparr>"

definition em_second :: CmsEntryMedia where
  "em_second = \<lparr>id_em = ''a1'', entryId = ''e1'', mediaId = ''m1'', position = Some 2,
                caption = None\<rparr>"

definition em_first :: CmsEntryMedia where
  "em_first = \<lparr>id_em = ''a2'', entryId = ''e1'', mediaId = ''m2'', position = Some 1,
               caption = Some ''first''\<rparr>"

definition em_other :: CmsEntryMedia where
  "em_other = \<lparr>id_em = ''a3'', entryId = ''e2'', mediaId = ''m1'', position = None,
               caption = None\<rparr>"

definition news_entry :: CmsEntry where
  "news_entry =
     \<lparr>id_entry = ''e2'', collection = ''blog'', slug = ''news'', title = ''News'',
      content = JStr ''text'', fields_col = JObj [], status = PUBLISHED, createdBy = ''u1'',
      createdAt = 300, updatedAt = 300, publishedAt = Some 300\<rparr>"

definition old_entry :: CmsEntry where
  "old_entry =
     \<lparr>id_entry = ''e3'', collection = ''blog'', slug = ''old'', title = ''Old'',
      content = JNull, fields_col = JObj [], status = PUBLISHED, createdBy = ''u1'',
      createdAt = 50, updatedAt = 60, publishedAt = Some 55\<rparr>"

definition media_db :: CmsDb where
  "media_db =
     \<lparr>cmsEntryTable = [hello_entry, news_entry, old_entry],
      cmsEntryMediaTable = [em_second, em_first, em_other],
      cmsMediaTable = [photo, chart],
      userTable = [alice]\<rparr>"

definition both_relations :: "CmsIncludeRelations option" where
  "both_relations = Some \<lparr>inc_createdByUser = Some True, inc_media = Some True\<rparr>"

text \<open>Two blog entries, one of them with the empty slug, and an update to the empty slug.\<close>

definition blank_entry :: CmsEntry where
  "blank_entry = hello_entry\<lparr>slug := []\<rparr>"

definition blank_db :: CmsDb where
  "blank_db = empty_db\<lparr>cmsEntryTable := [blank_entry, news_entry]\<rparr>"

definition blank_slug_params :: UpdateCmsEntryParams where
  "blank_slug_params = (no_changes ''e2'')\<lparr>u_slug := Some []\<rparr>"

section \<open>Lemmas about the store operations\<close>

lemma findFirst_None: "findFirst P xs = None \<longleftrightarrow> (\<forall>x\<in>set xs. \<not> P x)"
  by (auto simp: findFirst_def find_None_iff)

lemma findFirst_Some_mem: "findFirst P xs = Some x \<Longrightarrow> x \<in> set xs \<and> P x"
  by (auto simp: findFirst_def find_Some_iff)

lemma findFirst_append_new:
  "\<forall>x\<in>set xs. \<not> P x \<Longrightarrow> P y \<Longrightarrow> findFirst P (xs @ [y]) = Some y"
  by (induction xs) (auto simp: findFirst_def)

lemma and_conds_two: "and_conds [eq f a, eq g b] r \<longleftrightarrow> f r = a \<and> g r = b"
  by (simp add: and_conds_def eq_def)

lemma lookup_own: "cfg key = Some coll \<Longrightarrow> lookup_collection cfg key = Own coll"
  by (simp add: lookup_collection_def)

lemma lookup_missing:
  "cfg key = None \<Longrightarrow> key \<notin> set prototype_keys \<Longrightarrow> lookup_collection cfg key = Missing"
  by (simp add: lookup_collection_def)

lemma lookup_inherited:
  "cfg key = None \<Longrightarrow> key \<in> set prototype_keys \<Longrightarrow> lookup_collection cfg key = Inherited"
  by (simp add: lookup_collection_def)

lemma lookup_own_iff: "lookup_collection cfg key = Own coll \<longleftrightarrow> cfg key = Some coll"
  by (cases "cfg key") (simp_all add: lookup_collection_def)

lemma slug_key_mem:
  "slug_key row \<in> set (map slug_key rows) \<longleftrightarrow>
     (\<exists>e\<in>set rows. collection e = collection row \<and> slug e = slug row)"
proof
  assume "slug_key row \<in> set (map slug_key rows)"
  then obtain e where e: "e \<in> set rows" and k: "slug_key e = slug_key row"
    by (auto simp: image_iff)
  from k have "collection e = collection row \<and> slug e = slug row"
    by (simp add: slug_key_def)
  with e show "\<exists>e\<in>set rows. collection e = collection row \<and> slug e = slug row" ..
next
  assume "\<exists>e\<in>set rows. collection e = collection row \<and> slug e = slug row"
  then obtain e where e: "e \<in> set rows" and "collection e = collection row \<and> slug e = slug row"
    ..
  then have "slug_key row = slug_key e" by (simp add: slug_key_def)
  with e show "slug_key row \<in> set (map slug_key rows)" by (simp add: image_iff) blast
qed

section \<open>Properties of createCmsEntry\<close>

lemma create_missing:
  "cfg (c_collectionSlug p) = None \<Longrightarrow> c_collectionSlug p \<notin> set prototype_keys \<Longrightarrow>
   createCmsEntry cfg newId now db p = (Inl (CollectionNotFound (c_collectionSlug p)), db)"
  by (simp add: createCmsEntry_def lookup_missing)

lemma create_inherited:
  "cfg (c_collectionSlug p) = None \<Longrightarrow> c_collectionSlug p \<in> set prototype_keys \<Longrightarrow>
   createCmsEntry cfg newId now db p = (Inl StoreFailure, db)"
  by (simp add: createCmsEntry_def lookup_inherited)

lemma create_duplicate:
  assumes "cfg (c_collectionSlug p) = Some coll"
    and "\<exists>e\<in>set (cmsEntryTable db). collection e = coll_slug coll \<and> slug e = c_slug p"
  shows "createCmsEntry cfg newId now db p =
           (Inl (DuplicateSlug (c_slug p) (coll_slug coll)), db)"
proof -
  have "findFirst (and_conds [eq collection (coll_slug coll), eq slug (c_slug p)])
          (cmsEntryTable db) \<noteq> None"
    using assms(2) by (auto simp: findFirst_None and_conds_two)
  then show ?thesis
    using assms(1) by (auto simp: createCmsEntry_def lookup_own)
qed

lemma create_fresh:
  assumes "cfg (c_collectionSlug p) = Some coll"
    and "\<not> (\<exists>e\<in>set (cmsEntryTable db). collection e = coll_slug coll \<and> slug e = c_slug p)"
  shows "createCmsEntry cfg newId now db p =
     (Inr (insert_values newId now (coll_slug coll) p
             (case c_status p of None \<Rightarrow> DRAFT | Some v \<Rightarrow> v)),
      db\<lparr>cmsEntryTable := cmsEntryTable db @
            [insert_values newId now (coll_slug coll) p
               (case c_status p of None \<Rightarrow> DRAFT | Some v \<Rightarrow> v)]\<rparr>)"
proof -
  let ?row = "insert_values newId now (coll_slug coll) p
                (case c_status p of None \<Rightarrow> DRAFT | Some v \<Rightarrow> v)"
  have none: "findFirst (and_conds [eq collection (coll_slug coll), eq slug (c_slug p)])
          (cmsEntryTable db) = None"
    using assms(2) by (auto simp: findFirst_None and_conds_two)
  have "collection ?row = coll_slug coll" "slug ?row = c_slug p"
    by (simp_all add: insert_values_def)
  with assms(2) have "slug_key ?row \<notin> set (map slug_key (cmsEntryTable db))"
    by (simp only: slug_key_mem) simp
  then have "insert_returning ?row db =
      (Inr ?row, db\<lparr>cmsEntryTable := cmsEntryTable db @ [?row]\<rparr>)"
    by (simp add: insert_returning_def)
  with none show ?thesis
    using assms(1) by (simp add: createCmsEntry_def lookup_own Let_def)
qed

lemma create_failure_no_write:
  "createCmsEntry cfg newId now db p = (Inl err, db') \<Longrightarrow> db' = db"
  by (auto simp: createCmsEntry_def insert_returning_def Let_def
      split: property.splits option.splits if_splits)

lemma create_success_cases:
  assumes "createCmsEntry cfg newId now db p = (Inr row, db')"
  obtains coll where "cfg (c_collectionSlug p) = Some coll"
    and "\<not> (\<exists>e\<in>set (cmsEntryTable db). collection e = coll_slug coll \<and> slug e = c_slug p)"
    and "row = insert_values newId now (coll_slug coll) p
                 (case c_status p of None \<Rightarrow> DRAFT | Some v \<Rightarrow> v)"
    and "db' = db\<lparr>cmsEntryTable := cmsEntryTable db @ [row]\<rparr>"
proof -
  obtain coll where "lookup_collection cfg (c_collectionSlug p) = Own coll"
    using assms by (cases "lookup_collection cfg (c_collectionSlug p)")
      (auto simp: createCmsEntry_def)
  then have c: "cfg (c_collectionSlug p) = Some coll"
    by (simp add: lookup_own_iff)
  have fresh: "\<not> (\<exists>e\<in>set (cmsEntryTable db). collection e = coll_slug coll \<and> slug e = c_slug p)"
  proof
    assume "\<exists>e\<in>set (cmsEntryTable db). collection e = coll_slug coll \<and> slug e = c_slug p"
    with c have "createCmsEntry cfg newId now db p =
        (Inl (DuplicateSlug (c_slug p) (coll_slug coll)), db)"
      by (rule create_duplicate)
    with assms show False by simp
  qed
  have "createCmsEntry cfg newId now db p =
     (Inr (insert_values newId now (coll_slug coll) p
             (case c_status p of None \<Rightarrow> DRAFT | Some v \<Rightarrow> v)),
      db\<lparr>cmsEntryTable := cmsEntryTable db @
            [insert_values newId now (coll_slug coll) p
               (case c_status p of None \<Rightarrow> DRAFT | Some v \<Rightarrow> v)]\<rparr>)"
    using c fresh by (rule create_fresh)
  with assms have "row = insert_values newId now (coll_slug coll) p
                 (case c_status p of None \<Rightarrow> DRAFT | Some v \<Rightarrow> v)"
    and "db' = db\<lparr>cmsEntryTable := cmsEntryTable db @ [row]\<rparr>"
    by auto
  with c fresh show thesis by (rule that)
qed

text \<open>
  C4, as the code has it. \<^verbatim>\<open>createCmsEntry\<close> fails with the collection-not-found
  error when the collection slug is no property of the registry object: neither one of
  its own keys nor a name inherited from \<^verbatim>\<open>Object.prototype\<close>. For an inherited name
  the guard does not fire and the call fails in the store. For an own key, the call
  fails with the duplicate-slug error when an entry with the same (collection, slug)
  exists; otherwise it appends one row that carries the supplied attributes, whose
  status is the supplied status or draft when none is supplied, and returns that row.
  No failure writes to the store. After a success, every further call with the same
  (collection, slug) fails with the duplicate-slug error: of two sequential calls, one
  succeeds and one is a duplicate.
\<close>

theorem createCmsEntry_outcomes:
  "(cfg (c_collectionSlug p) = None \<and> c_collectionSlug p \<notin> set prototype_keys \<longrightarrow>
      createCmsEntry cfg newId now db p = (Inl (CollectionNotFound (c_collectionSlug p)), db))
   \<and> (cfg (c_collectionSlug p) = None \<and> c_collectionSlug p \<in> set prototype_keys \<longrightarrow>
        createCmsEntry cfg newId now db p = (Inl StoreFailure, db))
   \<and> (\<forall>coll. cfg (c_collectionSlug p) = Some coll \<longrightarrow>
        (if \<exists>e\<in>set (cmsEntryTable db). collection e = coll_slug coll \<and> slug e = c_slug p
         then createCmsEntry cfg newId now db p =
                (Inl (DuplicateSlug (c_slug p) (coll_slug coll)), db)
         else (\<exists>row db'.
                createCmsEntry cfg newId now db p = (Inr row, db')
                \<and> db' = db\<lparr>cmsEntryTable := cmsEntryTable db @ [row]\<rparr>
                \<and> status row = (case c_status p of None \<Rightarrow> DRAFT | Some v \<Rightarrow> v)
                \<and> id_entry row = newId \<and> collection row = coll_slug coll
                \<and> slug row = c_slug p \<and> title row = c_title p
                \<and> content row = c_content p \<and> fields_col row = c_fields p
                \<and> createdBy row = c_createdBy p
                \<and> createdAt row = now \<and> updatedAt row = now
                \<and> (\<forall>newId' now' q.
                      c_collectionSlug q = c_collectionSlug p \<and> c_slug q = c_slug p \<longrightarrow>
                      createCmsEntry cfg newId' now' db' q =
                        (Inl (DuplicateSlug (c_slug p) (coll_slug coll)), db')))))"
proof (intro conjI impI allI)
  assume "cfg (c_collectionSlug p) = None \<and> c_collectionSlug p \<notin> set prototype_keys"
  then show "createCmsEntry cfg newId now db p =
      (Inl (CollectionNotFound (c_collectionSlug p)), db)"
    by (simp add: create_missing)
next
  assume "cfg (c_collectionSlug p) = None \<and> c_collectionSlug p \<in> set prototype_keys"
  then show "createCmsEntry cfg newId now db p = (Inl StoreFailure, db)"
    by (simp add: create_inherited)
next
  fix coll
  assume c: "cfg (c_collectionSlug p) = Some coll"
  let ?dup = "\<exists>e\<in>set (cmsEntryTable db). collection e = coll_slug coll \<and> slug e = c_slug p"
  let ?row = "insert_values newId now (coll_slug coll) p
                (case c_status p of None \<Rightarrow> DRAFT | Some v \<Rightarrow> v)"
  let ?db' = "db\<lparr>cmsEntryTable := cmsEntryTable db @ [?row]\<rparr>"
  show "if ?dup
        then createCmsEntry cfg newId now db p =
                (Inl (DuplicateSlug (c_slug p) (coll_slug coll)), db)
        else (\<exists>row db'.
                createCmsEntry cfg newId now db p = (Inr row, db')
                \<and> db' = db\<lparr>cmsEntryTable := cmsEntryTable db @ [row]\<rparr>
                \<and> status row = (case c_status p of None \<Rightarrow> DRAFT | Some v \<Rightarrow> v)
                \<and> id_entry row = newId \<and> collection row = coll_slug coll
                \<and> slug row = c_slug p \<and> title row = c_title p
                \<and> content row = c_content p \<and> fields_col row = c_fields p
                \<and> createdBy row = c_createdBy p
                \<and> createdAt row = now \<and> updatedAt row = now
                \<and> (\<forall>newId' now' q.
                      c_collectionSlug q = c_collectionSlug p \<and> c_slug q = c_slug p \<longrightarrow>
                      createCmsEntry cfg newId' now' db' q =
                        (Inl (DuplicateSlug (c_slug p) (coll_slug coll)), db')))"
  proof (cases ?dup)
    case True
    with c have "createCmsEntry cfg newId now db p =
        (Inl (DuplicateSlug (c_slug p) (coll_slug coll)), db)"
      by (rule create_duplicate)
    with True show ?thesis by simp
  next
    case False
    with c have run: "createCmsEntry cfg newId now db p = (Inr ?row, ?db')"
      by (rule create_fresh)
    have again: "createCmsEntry cfg newId' now' ?db' q =
                   (Inl (DuplicateSlug (c_slug p) (coll_slug coll)), ?db')"
      if q: "c_collectionSlug q = c_collectionSlug p \<and> c_slug q = c_slug p" for newId' now' q
    proof -
      have cq: "cfg (c_collectionSlug q) = Some coll" using c q by simp
      have "\<exists>e\<in>set (cmsEntryTable ?db'). collection e = coll_slug coll \<and> slug e = c_slug q"
        using q by (simp add: insert_values_def)
      with cq have "createCmsEntry cfg newId' now' ?db' q =
                   (Inl (DuplicateSlug (c_slug q) (coll_slug coll)), ?db')"
        by (rule create_duplicate)
      then show ?thesis using q by simp
    qed
    have attrs: "status ?row = (case c_status p of None \<Rightarrow> DRAFT | Some v \<Rightarrow> v)
                \<and> id_entry ?row = newId \<and> collection ?row = coll_slug coll
                \<and> slug ?row = c_slug p \<and> title ?row = c_title p
                \<and> content ?row = c_content p \<and> fields_col ?row = c_fields p
                \<and> createdBy ?row = c_createdBy p
                \<and> createdAt ?row = now \<and> updatedAt ?row = now"
      by (simp add: insert_values_def)
    from False run attrs again show ?thesis by (simp del: split_paired_All)
  qed
qed

theorem createCmsEntry_outcomes_witness:
  "createCmsEntry cmsConfig ''e1'' 100 empty_db hello_params = (Inr hello_entry, hello_db)
   \<and> createCmsEntry cmsConfig ''e9'' 900 hello_db hello_params =
       (Inl (DuplicateSlug ''hello-world'' ''blog''), hello_db)
   \<and> createCmsEntry cmsConfig ''e1'' 100 empty_db (hello_params\<lparr>c_collectionSlug := ''docs''\<rparr>) =
       (Inl (CollectionNotFound ''docs''), empty_db)
   \<and> createCmsEntry cmsConfig ''e1'' 100 empty_db
         (hello_params\<lparr>c_collectionSlug := ''constructor''\<rparr>) =
       (Inl StoreFailure, empty_db)
   \<and> status hello_entry = DRAFT"
proof -
  have keys: "cmsConfig ''blog'' = Some blogCollection" "cmsConfig ''docs'' = None"
    "cmsConfig ''constructor'' = None" "''docs'' \<notin> set prototype_keys"
    "''constructor'' \<in> set prototype_keys"
    by (simp_all add: cmsConfig_def prototype_keys_def)
  have a: "createCmsEntry cmsConfig ''e1'' 100 empty_db hello_params = (Inr hello_entry, hello_db)"
    using createCmsEntry_outcomes [of cmsConfig hello_params "''e1''" 100 empty_db]
    by (simp add: cmsConfig_def blogCollection_def hello_params_def empty_db_def
        hello_entry_def hello_db_def insert_values_def createCmsEntry_def findFirst_def
        lookup_collection_def insert_returning_def Let_def)
  have b: "createCmsEntry cmsConfig ''e9'' 900 hello_db hello_params =
       (Inl (DuplicateSlug ''hello-world'' ''blog''), hello_db)"
    using createCmsEntry_outcomes [of cmsConfig hello_params "''e9''" 900 hello_db] keys(1)
    by (simp add: blogCollection_def hello_params_def empty_db_def
        hello_entry_def hello_db_def)
  have c: "createCmsEntry cmsConfig ''e1'' 100 empty_db (hello_params\<lparr>c_collectionSlug := ''docs''\<rparr>) =
       (Inl (CollectionNotFound ''docs''), empty_db)"
    using createCmsEntry_outcomes [of cmsConfig "hello_params\<lparr>c_collectionSlug := ''docs''\<rparr>" "''e1''" 100 empty_db]
      keys(2,4)
    by simp
  have d: "createCmsEntry cmsConfig ''e1'' 100 empty_db
         (hello_params\<lparr>c_collectionSlug := ''constructor''\<rparr>) = (Inl StoreFailure, empty_db)"
    using createCmsEntry_outcomes [of cmsConfig "hello_params\<lparr>c_collectionSlug := ''constructor''\<rparr>" "''e1''" 100 empty_db]
      keys(3,5)
    by simp
  have e: "status hello_entry = DRAFT" by (simp add: hello_entry_def)
  from a b c d e show ?thesis by (intro conjI)
qed

theorem create_inherited_key_not_reported:
  "cmsConfig ''constructor'' = None
   \<and> createCmsEntry cmsConfig ''e1'' 100 empty_db
         (hello_params\<lparr>c_collectionSlug := ''constructor''\<rparr>) =
       (Inl StoreFailure, empty_db)
   \<and> Inl StoreFailure \<noteq> (Inl (CollectionNotFound ''constructor'') :: cms_error + CmsEntry)"
  by (simp add: cmsConfig_def createCmsEntry_def lookup_collection_def prototype_keys_def
      hello_params_def)

section \<open>Properties of the queries\<close>

lemma mset_order_by1: "mset (order_by1 t rows) = mset rows"
  by (cases t) simp_all

lemma mset_order_rows: "mset (order_rows ts rows) = mset rows"
  by (induction ts) (simp_all add: order_rows_def mset_order_by1)

lemma mset_select_rows: "mset (select_rows wh ob rows) = filter_mset wh (mset rows)"
  by (simp add: select_rows_def mset_order_rows)


lemma findMany_all: "findMany wh ob None None rows = Inr (select_rows wh ob rows)"
  by (simp add: findMany_def limit_clause_def offset_clause_def)

lemma findMany_window:
  assumes "0 \<le> l" and "\<forall>k. off = Some k \<longrightarrow> 0 \<le> k"
  shows "findMany wh ob (Some l) off rows = Inr (window l off (select_rows wh ob rows))"
proof (cases off)
  case None
  with assms(1) show ?thesis
    by (simp add: findMany_def limit_clause_def offset_clause_def window_def)
next
  case (Some k)
  with assms show ?thesis
    by (cases "k = 0") (simp_all add: findMany_def limit_clause_def offset_clause_def window_def)
qed

lemma findMany_offset_alone:
  "k \<noteq> 0 \<Longrightarrow> findMany wh ob None (Some k) rows = Inl StoreFailure"
  by (simp add: findMany_def limit_clause_def offset_clause_def)

lemma map_window: "map f (window l off xs) = window l off (map f xs)"
  by (simp add: window_def take_map drop_map split: option.splits)

lemma collection_conds:
  "and_conds ([eq collection c] @ status_conds (default_status st)) e \<longleftrightarrow> spec_filter c st e"
  by (simp add: and_conds_def eq_def status_conds_def default_status_def spec_filter_def
      split: option.splits CmsEntryStatus.splits)

lemma entry_conds:
  "and_conds ([eq collection c, eq slug sl] @ status_conds (default_status st)) e
     \<longleftrightarrow> spec_filter c st e \<and> slug e = sl"
  by (auto simp: and_conds_def eq_def status_conds_def default_status_def spec_filter_def
      split: option.splits CmsEntryStatus.splits)

lemma entry_with_relations [simp]: "entry (with_relations db rels e) = e"
  by (simp add: with_relations_def)

lemma getCmsCollection_missing:
  "cfg cs = None \<Longrightarrow> cs \<notin> set prototype_keys \<Longrightarrow>
   getCmsCollection cfg db cs st inc lim off = Inl (CollectionNotFound cs)"
  by (simp add: getCmsCollection_def lookup_missing)

lemma getCmsCollection_known:
  assumes "cfg cs = Some coll"
  shows "getCmsCollection cfg db cs st inc lim off =
     (case findMany (spec_filter (coll_slug coll) st) [Desc createdAt] lim off
             (cmsEntryTable db) of
        Inl err \<Rightarrow> Inl err
      | Inr entries \<Rightarrow> Inr (map (with_relations db (buildCmsRelationsQuery inc)) entries))"
proof -
  have "and_conds ([eq collection (coll_slug coll)] @ status_conds (default_status st))
          = spec_filter (coll_slug coll) st"
    by (rule ext) (rule collection_conds)
  with assms show ?thesis
    by (simp add: getCmsCollection_def lookup_own Let_def)
qed

lemma getCmsCollection_all:
  assumes "cfg cs = Some coll"
  shows "getCmsCollection cfg db cs st inc None None =
     Inr (map (with_relations db (buildCmsRelationsQuery inc))
            (select_rows (spec_filter (coll_slug coll) st) [Desc createdAt] (cmsEntryTable db)))"
  using getCmsCollection_known [where cfg = cfg and cs = cs and coll = coll, OF assms]
  by (simp add: findMany_all)


lemma getCmsEntry_known:
  assumes "cfg cs = Some coll"
  shows "getCmsEntry cfg db cs sl st inc =
     Inr (of_query (map_option (with_relations db (buildCmsRelationsQuery inc))
            (findFirst (\<lambda>e. spec_filter (coll_slug coll) st e \<and> slug e = sl)
               (cmsEntryTable db))))"
proof -
  have "and_conds ([eq collection (coll_slug coll), eq slug sl] @ status_conds (default_status st))
          = (\<lambda>e. spec_filter (coll_slug coll) st e \<and> slug e = sl)"
    by (rule ext) (rule entry_conds)
  with assms show ?thesis
    by (simp add: getCmsEntry_def lookup_own Let_def)
qed


lemma of_query_simps [simp]:
  "of_query None = Undefined" "of_query (Some v) = Value v"
  "of_query r \<noteq> Null" "of_query r = Undefined \<longleftrightarrow> r = None"
  "of_query r = Value v \<longleftrightarrow> r = Some v"
  by (cases r; simp add: of_query_def)+




text \<open>
  C8. After \<^verbatim>\<open>createCmsEntry\<close> succeeds, \<^verbatim>\<open>getCmsEntry\<close> with the same collection and
  slug and the status \<^verbatim>\<open>'all'\<close>, run on the resulting store, returns the row that
  was created: its slug, title, content, fields and status are those supplied (draft
  when no status was supplied) and its collection is the slug the registry gives for the
  collection key.
\<close>

theorem create_then_get_roundtrip:
  assumes "createCmsEntry cfg newId now db p = (Inr row, db')"
  shows "\<exists>r coll.
           getCmsEntry cfg db' (c_collectionSlug p) (c_slug p) (Some All) inc = Inr (Value r)
           \<and> entry r = row
           \<and> cfg (c_collectionSlug p) = Some coll
           \<and> collection (entry r) = coll_slug coll
           \<and> slug (entry r) = c_slug p
           \<and> title (entry r) = c_title p
           \<and> content (entry r) = c_content p
           \<and> fields_col (entry r) = c_fields p
           \<and> status (entry r) = (case c_status p of None \<Rightarrow> DRAFT | Some v \<Rightarrow> v)"
proof -
  from assms obtain coll where c: "cfg (c_collectionSlug p) = Some coll"
    and fresh: "\<not> (\<exists>e\<in>set (cmsEntryTable db). collection e = coll_slug coll \<and> slug e = c_slug p)"
    and row: "row = insert_values newId now (coll_slug coll) p
                 (case c_status p of None \<Rightarrow> DRAFT | Some v \<Rightarrow> v)"
    and db': "db' = db\<lparr>cmsEntryTable := cmsEntryTable db @ [row]\<rparr>"
    by (rule create_success_cases)
  let ?P = "\<lambda>e. spec_filter (coll_slug coll) (Some All) e \<and> slug e = c_slug p"
  have "?P row" by (simp add: row spec_filter_def insert_values_def)
  moreover have "\<forall>x\<in>set (cmsEntryTable db). \<not> ?P x"
    using fresh by (auto simp: spec_filter_def)
  ultimately have "findFirst ?P (cmsEntryTable db') = Some row"
    unfolding db' by (simp add: findFirst_append_new)
  then have "getCmsEntry cfg db' (c_collectionSlug p) (c_slug p) (Some All) inc =
      Inr (Value (with_relations db' (buildCmsRelationsQuery inc) row))"
    using getCmsEntry_known [where cfg = cfg and cs = "c_collectionSlug p" and coll = coll
        and db = db' and sl = "c_slug p" and st = "Some All" and inc = inc, OF c]
    by simp
  moreover have "collection row = coll_slug coll \<and> slug row = c_slug p \<and> title row = c_title p
      \<and> content row = c_content p \<and> fields_col row = c_fields p
      \<and> status row = (case c_status p of None \<Rightarrow> DRAFT | Some v \<Rightarrow> v)"
    by (simp add: row insert_values_def)
  ultimately show ?thesis using c by simp
qed

theorem create_then_get_roundtrip_witness:
  "createCmsEntry cmsConfig ''e1'' 100 empty_db hello_params = (Inr hello_entry, hello_db)
   \<and> getCmsEntry cmsConfig hello_db ''blog'' ''hello-world'' (Some All) both_relations =
       Inr (Value \<lparr>entry = hello_entry, createdByUser = None, entryMedia = Some []\<rparr>)
   \<and> title hello_entry = ''Hello'' \<and> status hello_entry = DRAFT"
proof -
  have run: "createCmsEntry cmsConfig ''e1'' 100 empty_db hello_params = (Inr hello_entry, hello_db)"
    by (simp add: cmsConfig_def blogCollection_def hello_params_def empty_db_def
        hello_entry_def hello_db_def insert_values_def createCmsEntry_def findFirst_def
        lookup_collection_def insert_returning_def Let_def)
  have get: "getCmsEntry cmsConfig hello_db ''blog'' ''hello-world'' (Some All) both_relations =
       Inr (Value \<lparr>entry = hello_entry, createdByUser = None, entryMedia = Some []\<rparr>)"
    using create_then_get_roundtrip [OF run, of both_relations]
    by (simp add: getCmsEntry_def lookup_collection_def cmsConfig_def blogCollection_def
        and_conds_def eq_def status_conds_def default_status_def Let_def
        hello_params_def with_relations_def buildCmsRelationsQuery_def
        truthy_flag_def both_relations_def load_createdByUser_def load_entryMedia_def
        select_rows_def findFirst_def order_rows_def hello_db_def empty_db_def hello_entry_def)
  show ?thesis using run get by (simp add: hello_entry_def)
qed

lemma newest_first_desc: "newest_first (select_rows wh [Desc createdAt] rows)"
proof -
  have "sorted (map createdAt (sort_key createdAt (rev (filter wh rows))))"
    by (rule sorted_sort_key)
  then have "sorted_wrt (\<lambda>a b. createdAt a \<le> createdAt b)
               (sort_key createdAt (rev (filter wh rows)))"
    by (simp add: sorted_map)
  then show ?thesis
    by (simp add: newest_first_def select_rows_def order_rows_def sorted_wrt_rev)
qed

lemma newest_first_window: "newest_first es \<Longrightarrow> newest_first (window l off es)"
  by (cases off) (simp_all add: newest_first_def window_def)

lemma map_entry_with_relations: "map entry (map (with_relations db rels) es) = es"
  by (simp add: comp_def)

text \<open>
  C5, as the code has it. \<^verbatim>\<open>getCmsCollection\<close> fails with the collection-not-found
  error when the collection slug is no property of the registry object (neither an own
  key nor a name inherited from \<^verbatim>\<open>Object.prototype\<close>). For an own key, the call without
  limit and offset returns, with multiplicity, exactly the entries that pass the filter
  of the specification (collection equal to the registry's slug, and status equal to the
  requested one unless it is \<^verbatim>\<open>'all'\<close>, published by default), whatever their number;
  its rows are ordered by \<^verbatim>\<open>createdAt\<close> descending (never increasing: entries created
  at the same time are adjacent, in either order); and a call with a limit that is not
  negative, alone or with an offset that is not negative, returns the corresponding
  window of that list, again newest first.
\<close>

theorem getCmsCollection_spec:
  "(cfg cs = None \<and> cs \<notin> set prototype_keys \<longrightarrow>
      getCmsCollection cfg db cs st inc lim off = Inl (CollectionNotFound cs))
   \<and> (\<forall>coll. cfg cs = Some coll \<longrightarrow>
        (\<exists>full.
           getCmsCollection cfg db cs st inc None None = Inr full
           \<and> mset (map entry full) =
               filter_mset (spec_filter (coll_slug coll) st) (mset (cmsEntryTable db))
           \<and> length full = length (filter (spec_filter (coll_slug coll) st) (cmsEntryTable db))
           \<and> newest_first (map entry full)
           \<and> (\<forall>l. lim = Some l \<and> 0 \<le> l \<and> (\<forall>k. off = Some k \<longrightarrow> 0 \<le> k) \<longrightarrow>
                 getCmsCollection cfg db cs st inc lim off = Inr (window l off full)
                 \<and> newest_first (map entry (window l off full)))))"
proof (intro conjI impI allI)
  assume "cfg cs = None \<and> cs \<notin> set prototype_keys"
  then show "getCmsCollection cfg db cs st inc lim off = Inl (CollectionNotFound cs)"
    by (simp add: getCmsCollection_missing)
next
  fix coll
  assume c: "cfg cs = Some coll"
  let ?w = "with_relations db (buildCmsRelationsQuery inc)"
  let ?f = "spec_filter (coll_slug coll) st"
  let ?all = "select_rows ?f [Desc createdAt] (cmsEntryTable db)"
  have sorted_all: "newest_first ?all"
    by (rule newest_first_desc)
  have limited: "getCmsCollection cfg db cs st inc lim off = Inr (window l off (map ?w ?all))
                 \<and> newest_first (map entry (window l off (map ?w ?all)))"
    if h: "lim = Some l \<and> 0 \<le> l \<and> (\<forall>k. off = Some k \<longrightarrow> 0 \<le> k)" for l
  proof -
    from h have "findMany ?f [Desc createdAt] lim off (cmsEntryTable db) =
        Inr (window l off ?all)"
      by (simp add: findMany_window)
    then have "getCmsCollection cfg db cs st inc lim off = Inr (map ?w (window l off ?all))"
      using getCmsCollection_known [where cfg = cfg and cs = cs and coll = coll, OF c]
      by simp
    moreover have "newest_first (map entry (map ?w (window l off ?all)))"
      using sorted_all by (simp only: map_entry_with_relations newest_first_window)
    ultimately show ?thesis by (simp only: map_window)
  qed
  show "\<exists>full.
           getCmsCollection cfg db cs st inc None None = Inr full
           \<and> mset (map entry full) = filter_mset ?f (mset (cmsEntryTable db))
           \<and> length full = length (filter ?f (cmsEntryTable db))
           \<and> newest_first (map entry full)
           \<and> (\<forall>l. lim = Some l \<and> 0 \<le> l \<and> (\<forall>k. off = Some k \<longrightarrow> 0 \<le> k) \<longrightarrow>
                 getCmsCollection cfg db cs st inc lim off = Inr (window l off full)
                 \<and> newest_first (map entry (window l off full)))"
  proof (intro exI conjI)
    show "getCmsCollection cfg db cs st inc None None = Inr (map ?w ?all)"
      using c by (rule getCmsCollection_all)
    show "mset (map entry (map ?w ?all)) = filter_mset ?f (mset (cmsEntryTable db))"
      by (simp only: map_entry_with_relations mset_select_rows)
    show "length (map ?w ?all) = length (filter ?f (cmsEntryTable db))"
      using mset_select_rows [of ?f "[Desc createdAt]" "cmsEntryTable db"]
      by (metis length_map mset_filter size_mset)
    show "newest_first (map entry (map ?w ?all))"
      using sorted_all by (simp only: map_entry_with_relations)
    show "\<forall>l. lim = Some l \<and> 0 \<le> l \<and> (\<forall>k. off = Some k \<longrightarrow> 0 \<le> k) \<longrightarrow>
                 getCmsCollection cfg db cs st inc lim off = Inr (window l off (map ?w ?all))
                 \<and> newest_first (map entry (window l off (map ?w ?all)))"
      using limited by (intro allI impI)
  qed
qed

theorem getCmsCollection_spec_witness:
  "getCmsCollection cmsConfig media_db ''blog'' (Some All) None None None =
     Inr [\<lparr>entry = news_entry, createdByUser = None, entryMedia = None\<rparr>,
          \<lparr>entry = hello_entry, createdByUser = None, entryMedia = None\<rparr>,
          \<lparr>entry = old_entry, createdByUser = None, entryMedia = None\<rparr>]
   \<and> getCmsCollection cmsConfig media_db ''blog'' None None None None =
     Inr [\<lparr>entry = news_entry, createdByUser = None, entryMedia = None\<rparr>,
          \<lparr>entry = old_entry, createdByUser = None, entryMedia = None\<rparr>]
   \<and> getCmsCollection cmsConfig media_db ''blog'' None None (Some 1) (Some 1) =
     Inr [\<lparr>entry = old_entry, createdByUser = None, entryMedia = None\<rparr>]
   \<and> getCmsCollection cmsConfig media_db ''docs'' None None (Some 1) (Some 1) =
     Inl (CollectionNotFound ''docs'')
   \<and> newest_first [news_entry, hello_entry, old_entry]"
proof -
  have known: "cmsConfig ''blog'' = Some blogCollection"
    and unknown: "cmsConfig ''docs'' = None \<and> ''docs'' \<notin> set prototype_keys"
    by (simp_all add: cmsConfig_def prototype_keys_def)
  have rel: "with_relations media_db (buildCmsRelationsQuery None) =
      (\<lambda>e. \<lparr>entry = e, createdByUser = None, entryMedia = None\<rparr>)"
    by (rule ext) (simp add: with_relations_def buildCmsRelationsQuery_def truthy_flag_def)
  have entries: "cmsEntryTable media_db = [hello_entry, news_entry, old_entry]"
    by (simp add: media_db_def)
  have keys: "createdAt hello_entry = 100" "createdAt news_entry = 300" "createdAt old_entry = 50"
    "status hello_entry = DRAFT" "status news_entry = PUBLISHED" "status old_entry = PUBLISHED"
    "collection hello_entry = ''blog''" "collection news_entry = ''blog''"
    "collection old_entry = ''blog''"
    by (simp_all add: hello_entry_def news_entry_def old_entry_def)
  have all: "getCmsCollection cmsConfig media_db ''blog'' (Some All) None None None =
     Inr [\<lparr>entry = news_entry, createdByUser = None, entryMedia = None\<rparr>,
          \<lparr>entry = hello_entry, createdByUser = None, entryMedia = None\<rparr>,
          \<lparr>entry = old_entry, createdByUser = None, entryMedia = None\<rparr>]"
    by (simp add: getCmsCollection_def lookup_own known rel entries keys blogCollection_def
        findMany_def limit_clause_def offset_clause_def select_rows_def
        order_rows_def and_conds_def eq_def status_conds_def default_status_def Let_def)
  have pub: "getCmsCollection cmsConfig media_db ''blog'' None None None None =
     Inr [\<lparr>entry = news_entry, createdByUser = None, entryMedia = None\<rparr>,
          \<lparr>entry = old_entry, createdByUser = None, entryMedia = None\<rparr>]"
    by (simp add: getCmsCollection_def lookup_own known rel entries keys blogCollection_def
        findMany_def limit_clause_def offset_clause_def select_rows_def
        order_rows_def and_conds_def eq_def status_conds_def default_status_def Let_def)
  from getCmsCollection_spec [of cmsConfig "''blog''" media_db None None "Some 1" "Some 1"]
    known pub
  have win: "getCmsCollection cmsConfig media_db ''blog'' None None (Some 1) (Some 1) =
     Inr [\<lparr>entry = old_entry, createdByUser = None, entryMedia = None\<rparr>]"
    by (auto simp: window_def)
  from getCmsCollection_spec [of cmsConfig "''blog''" media_db "Some All" None None None]
    known all
  have sorted: "newest_first [news_entry, hello_entry, old_entry]"
    by auto
  from getCmsCollection_spec [of cmsConfig "''docs''" media_db None None "Some 1" "Some 1"]
    unknown
  have bad: "getCmsCollection cmsConfig media_db ''docs'' None None (Some 1) (Some 1) =
     Inl (CollectionNotFound ''docs'')"
    by simp
  from all pub win bad sorted show ?thesis by (intro conjI)
qed

theorem getCmsCollection_offset_alone_fails:
  "getCmsCollection cmsConfig media_db ''blog'' None None None (Some 1) = Inl StoreFailure
   \<and> cmsConfig ''constructor'' = None
   \<and> getCmsCollection cmsConfig media_db ''constructor'' None None None None = Inl StoreFailure
   \<and> Inl StoreFailure \<noteq>
       (Inl (CollectionNotFound ''constructor'') :: cms_error + GetCmsCollectionResult list)"
  by (simp add: getCmsCollection_def lookup_collection_def cmsConfig_def prototype_keys_def
      findMany_def limit_clause_def offset_clause_def Let_def)

section \<open>Properties of relation loading\<close>

lemma flag_set_truthy: "truthy_flag inc sel = flag_set inc sel"
  by (cases inc) (simp_all add: truthy_flag_def flag_set_def)

lemma rel_createdByUser_build:
  "rel_createdByUser (buildCmsRelationsQuery inc) =
     (if flag_set inc inc_createdByUser
      then Some [UserId, FirstName, LastName, Email, Avatar] else None)"
  by (simp add: buildCmsRelationsQuery_def flag_set_truthy Let_def)

lemma rel_entryMedia_build:
  "rel_entryMedia (buildCmsRelationsQuery inc) =
     (if flag_set inc inc_media
      then Some \<lparr>orderBy = [Asc position], with_media = True\<rparr> else None)"
  by (simp add: buildCmsRelationsQuery_def flag_set_truthy Let_def)

lemma em_rows_load_entryMedia:
  "map em_row (load_entryMedia db q e) =
     select_rows (eq entryId (id_entry e)) (orderBy q) (cmsEntryMediaTable db)"
  by (simp add: load_entryMedia_def comp_def)

lemma map_fst_select_columns: "map fst (select_columns cols u) = cols"
  by (simp add: select_columns_def comp_def)

text \<open>
  C9. When neither flag of \<^verbatim>\<open>includeRelations\<close> is set, \<^verbatim>\<open>buildCmsRelationsQuery\<close>
  returns the empty object and a loaded row carries the entry alone. When the media
  flag is set, the row carries the media associations of the entry (exactly the rows of
  the association table with its id), in ascending \<^verbatim>\<open>position\<close> order, a null position
  first. When the creator flag is set, the selected columns are id, first name, last
  name, email and avatar, and a loaded creator profile has exactly these columns, so
  never the password hash.
\<close>

theorem buildCmsRelationsQuery_spec:
  "(\<not> flag_set inc inc_createdByUser \<and> \<not> flag_set inc inc_media \<longrightarrow>
      buildCmsRelationsQuery inc = \<lparr>rel_createdByUser = None, rel_entryMedia = None\<rparr>
      \<and> with_relations db (buildCmsRelationsQuery inc) e =
          \<lparr>entry = e, createdByUser = None, entryMedia = None\<rparr>)
   \<and> (flag_set inc inc_media \<longrightarrow>
        (\<exists>ms. entryMedia (with_relations db (buildCmsRelationsQuery inc) e) = Some ms
           \<and> sorted (map position (map em_row ms))
           \<and> mset (map em_row ms) =
               filter_mset (\<lambda>m. entryId m = id_entry e) (mset (cmsEntryMediaTable db))))
   \<and> (\<not> flag_set inc inc_media \<longrightarrow>
        entryMedia (with_relations db (buildCmsRelationsQuery inc) e) = None)
   \<and> (flag_set inc inc_createdByUser \<longrightarrow>
        rel_createdByUser (buildCmsRelationsQuery inc) =
          Some [UserId, FirstName, LastName, Email, Avatar]
        \<and> (\<forall>profile.
              createdByUser (with_relations db (buildCmsRelationsQuery inc) e) = Some profile \<longrightarrow>
              map fst profile = [UserId, FirstName, LastName, Email, Avatar]
              \<and> PasswordHash \<notin> fst ` set profile))
   \<and> (\<not> flag_set inc inc_createdByUser \<longrightarrow>
        createdByUser (with_relations db (buildCmsRelationsQuery inc) e) = None)"
proof (intro conjI impI allI)
  assume n: "\<not> flag_set inc inc_createdByUser \<and> \<not> flag_set inc inc_media"
  then show b: "buildCmsRelationsQuery inc = \<lparr>rel_createdByUser = None, rel_entryMedia = None\<rparr>"
    by (simp add: buildCmsRelationsQuery_def flag_set_truthy Let_def)
  show "with_relations db (buildCmsRelationsQuery inc) e =
          \<lparr>entry = e, createdByUser = None, entryMedia = None\<rparr>"
    unfolding b by (simp add: with_relations_def)
next
  assume m: "flag_set inc inc_media"
  let ?q = "\<lparr>orderBy = [Asc position], with_media = True\<rparr>"
  let ?ms = "load_entryMedia db ?q e"
  have rows: "map em_row ?ms =
      sort_key position (filter (eq entryId (id_entry e)) (cmsEntryMediaTable db))"
    by (simp add: em_rows_load_entryMedia select_rows_def order_rows_def)
  have "entryMedia (with_relations db (buildCmsRelationsQuery inc) e) = Some ?ms"
    using m by (simp add: with_relations_def rel_entryMedia_build)
  moreover have "sorted (map position (map em_row ?ms))"
    unfolding rows by (rule sorted_sort_key)
  moreover have "mset (map em_row ?ms) =
      filter_mset (\<lambda>m. entryId m = id_entry e) (mset (cmsEntryMediaTable db))"
    unfolding rows by (simp add: eq_def)
  ultimately show "\<exists>ms. entryMedia (with_relations db (buildCmsRelationsQuery inc) e) = Some ms
           \<and> sorted (map position (map em_row ms))
           \<and> mset (map em_row ms) =
               filter_mset (\<lambda>m. entryId m = id_entry e) (mset (cmsEntryMediaTable db))"
    by (intro exI conjI)
next
  assume "\<not> flag_set inc inc_media"
  then show "entryMedia (with_relations db (buildCmsRelationsQuery inc) e) = None"
    by (simp add: with_relations_def rel_entryMedia_build)
next
  assume u: "flag_set inc inc_createdByUser"
  then show cols: "rel_createdByUser (buildCmsRelationsQuery inc) =
          Some [UserId, FirstName, LastName, Email, Avatar]"
    by (simp add: rel_createdByUser_build)
  fix profile
  assume "createdByUser (with_relations db (buildCmsRelationsQuery inc) e) = Some profile"
  then have "load_createdByUser db [UserId, FirstName, LastName, Email, Avatar] e = Some profile"
    by (simp add: with_relations_def cols)
  then obtain usr where "profile = select_columns [UserId, FirstName, LastName, Email, Avatar] usr"
    by (auto simp: load_createdByUser_def)
  then have fst: "map fst profile = [UserId, FirstName, LastName, Email, Avatar]"
    by (simp add: map_fst_select_columns)
  then show "map fst profile = [UserId, FirstName, LastName, Email, Avatar]" .
  have "fst ` set profile = set (map fst profile)" by simp
  then show "PasswordHash \<notin> fst ` set profile"
    unfolding fst by simp
next
  assume "\<not> flag_set inc inc_createdByUser"
  then show "createdByUser (with_relations db (buildCmsRelationsQuery inc) e) = None"
    by (simp add: with_relations_def rel_createdByUser_build)
qed

theorem buildCmsRelationsQuery_spec_witness:
  "with_relations media_db (buildCmsRelationsQuery both_relations) hello_entry =
     \<lparr>entry = hello_entry,
      createdByUser = Some [(UserId, Some ''u1''), (FirstName, Some ''Alice''), (LastName, None),
                            (Email, Some ''alice@example.com''), (Avatar, None)],
      entryMedia = Some [\<lparr>em_row = em_first, media = Some chart\<rparr>,
                         \<lparr>em_row = em_second, media = Some photo\<rparr>]\<rparr>
   \<and> sorted (map position [em_first, em_second])
   \<and> with_relations media_db (buildCmsRelationsQuery None) hello_entry =
       \<lparr>entry = hello_entry, createdByUser = None, entryMedia = None\<rparr>"
proof -
  have flags: "flag_set both_relations inc_createdByUser" "flag_set both_relations inc_media"
    "\<not> flag_set None inc_createdByUser \<and> \<not> flag_set None inc_media"
    by (simp_all add: flag_set_def both_relations_def)
  have ids: "id_entry hello_entry = ''e1''" "createdBy hello_entry = ''u1''"
    by (simp_all add: hello_entry_def)
  have ems: "entryId em_first = ''e1''" "entryId em_second = ''e1''" "entryId em_other = ''e2''"
    "position em_first = Some 1" "position em_second = Some 2"
    "mediaId em_first = ''m2''" "mediaId em_second = ''m1''"
    "id_media photo = ''m1''" "id_media chart = ''m2''"
    by (simp_all add: em_first_def em_second_def em_other_def photo_def chart_def)
  have loaded: "with_relations media_db (buildCmsRelationsQuery both_relations) hello_entry =
     \<lparr>entry = hello_entry,
      createdByUser = Some [(UserId, Some ''u1''), (FirstName, Some ''Alice''), (LastName, None),
                            (Email, Some ''alice@example.com''), (Avatar, None)],
      entryMedia = Some [\<lparr>em_row = em_first, media = Some chart\<rparr>,
                         \<lparr>em_row = em_second, media = Some photo\<rparr>]\<rparr>"
    by (simp add: with_relations_def buildCmsRelationsQuery_def truthy_flag_def
        both_relations_def load_createdByUser_def load_entryMedia_def select_columns_def
        select_rows_def findFirst_def order_rows_def eq_def media_db_def ids ems alice_def
        Let_def)
  from buildCmsRelationsQuery_spec [of both_relations media_db hello_entry] flags(2) loaded
  have sorted: "sorted (map position [em_first, em_second])"
    by auto
  from buildCmsRelationsQuery_spec [of None media_db hello_entry] flags(3)
  have none: "with_relations media_db (buildCmsRelationsQuery None) hello_entry =
       \<lparr>entry = hello_entry, createdByUser = None, entryMedia = None\<rparr>"
    by blast
  from loaded sorted none show ?thesis by simp
qed

section \<open>Properties of updateCmsEntry\<close>

lemma update_statement_nothing:
  "nothing_supplied p \<Longrightarrow> update_statement now db p = (Inl NoValuesToSet, db)"
  by (simp add: update_statement_def)

lemma update_statement_failure:
  "update_statement now db p = (Inl err, db') \<Longrightarrow> db' = db"
  by (auto simp: update_statement_def update_returning_def split: if_splits)

lemma update_statement_success:
  assumes "update_statement now db p = (Inr res, db')"
  shows "\<not> nothing_supplied p"
    and "db' = db\<lparr>cmsEntryTable :=
            map (\<lambda>r. if eq id_entry (u_id p) r then set_columns p now r else r)
              (cmsEntryTable db)\<rparr>"
    and "res = or_null (case map (set_columns p now)
                               (filter (eq id_entry (u_id p)) (cmsEntryTable db)) of
                          [] \<Rightarrow> None | updatedEntry # _ \<Rightarrow> Some updatedEntry)"
    and "u_slug p \<noteq> None \<longrightarrow>
           \<not> slug_index_conflict
               (map (set_columns p now) (filter (eq id_entry (u_id p)) (cmsEntryTable db)))
               (filter (\<lambda>r. \<not> eq id_entry (u_id p) r) (cmsEntryTable db))"
  using assms by (auto simp: update_statement_def update_returning_def split: if_splits)

lemma slug_index_conflict_Nil: "\<not> slug_index_conflict [] others"
  by (simp add: slug_index_conflict_def)

lemma update_statement_vanished:
  assumes "\<not> nothing_supplied p"
    and "\<not> (\<exists>x\<in>set (cmsEntryTable db). id_entry x = u_id p)"
  shows "update_statement now db p = (Inr Null, db)"
proof -
  have none: "filter (eq id_entry (u_id p)) (cmsEntryTable db) = []"
    using assms(2) by (auto simp: filter_empty_conv eq_def)
  have same: "map (\<lambda>r. if eq id_entry (u_id p) r then set_columns p now r else r)
                (cmsEntryTable db) = cmsEntryTable db"
    using assms(2) by (intro map_idI) (auto simp: eq_def)
  show ?thesis
    using assms(1)
    by (simp add: update_statement_def update_returning_def none same
        slug_index_conflict_Nil or_null_def)
qed

lemma retains_unsupplied_set_columns: "retains_unsupplied p e (set_columns p now e)"
  by (simp add: retains_unsupplied_def set_columns_def)

lemma updateCmsEntry_not_found:
  "findFirst (eq id_entry (u_id p)) (cmsEntryTable db) = None \<Longrightarrow>
   updateCmsEntry now db p = (Inl (EntryNotFound (u_id p)), db)"
  by (simp add: updateCmsEntry_def updateCmsEntry_run_def)

lemma updateCmsEntry_unchanged_slug:
  "findFirst (eq id_entry (u_id p)) (cmsEntryTable db) = Some e \<Longrightarrow>
   slug_change (u_slug p) e = None \<Longrightarrow>
   updateCmsEntry now db p = update_statement now db p"
  by (simp add: updateCmsEntry_def updateCmsEntry_run_def)

lemma updateCmsEntry_conflict:
  "findFirst (eq id_entry (u_id p)) (cmsEntryTable db) = Some e \<Longrightarrow>
   slug_change (u_slug p) e = Some s \<Longrightarrow>
   findFirst (and_conds [eq collection (collection e), eq slug s]) (cmsEntryTable db) = Some c \<Longrightarrow>
   updateCmsEntry now db p = (Inl (DuplicateSlug s (collection e)), db)"
  by (simp add: updateCmsEntry_def updateCmsEntry_run_def)

lemma updateCmsEntry_free_slug:
  "findFirst (eq id_entry (u_id p)) (cmsEntryTable db) = Some e \<Longrightarrow>
   slug_change (u_slug p) e = Some s \<Longrightarrow>
   findFirst (and_conds [eq collection (collection e), eq slug s]) (cmsEntryTable db) = None \<Longrightarrow>
   updateCmsEntry now db p = update_statement now db p"
  by (simp add: updateCmsEntry_def updateCmsEntry_run_def)

lemma findFirst_id_None:
  "findFirst (eq id_entry i) rows = None \<longleftrightarrow> \<not> (\<exists>e\<in>set rows. id_entry e = i)"
  by (auto simp: findFirst_None eq_def)

lemma updateCmsEntry_cases:
  "(\<exists>err. updateCmsEntry now db p = (Inl err, db))
   \<or> ((\<exists>e\<in>set (cmsEntryTable db). id_entry e = u_id p)
       \<and> (\<exists>res db'. updateCmsEntry now db p = (Inr res, db')
                     \<and> update_statement now db p = (Inr res, db')))"
proof (cases "findFirst (eq id_entry (u_id p)) (cmsEntryTable db)")
  case None
  then show ?thesis by (simp add: updateCmsEntry_not_found)
next
  case (Some e)
  then have ex: "\<exists>e\<in>set (cmsEntryTable db). id_entry e = u_id p"
    using findFirst_id_None [of "u_id p" "cmsEntryTable db"] by simp
  have statement: ?thesis if run: "updateCmsEntry now db p = update_statement now db p"
  proof (cases "update_statement now db p")
    case (Pair out db')
    show ?thesis
    proof (cases out)
      case (Inl err)
      with Pair have "db' = db" by (simp add: update_statement_failure)
      with Pair Inl run show ?thesis by simp
    next
      case (Inr res)
      with Pair run ex show ?thesis by simp
    qed
  qed
  show ?thesis
  proof (cases "slug_change (u_slug p) e")
    case None
    with Some have "updateCmsEntry now db p = update_statement now db p"
      by (rule updateCmsEntry_unchanged_slug)
    then show ?thesis by (rule statement)
  next
    case change: (Some s)
    show ?thesis
    proof (cases "findFirst (and_conds [eq collection (collection e), eq slug s])
                    (cmsEntryTable db)")
      case None
      with Some change have "updateCmsEntry now db p = update_statement now db p"
        by (rule updateCmsEntry_free_slug)
      then show ?thesis by (rule statement)
    next
      case conflict: (Some c)
      with Some change have "updateCmsEntry now db p =
          (Inl (DuplicateSlug s (collection e)), db)"
        by (rule updateCmsEntry_conflict)
      then show ?thesis by simp
    qed
  qed
qed

lemma slug_change_nothing: "nothing_supplied p \<Longrightarrow> slug_change (u_slug p) e = None"
  by (simp add: nothing_supplied_def slug_change_def)

text \<open>
  C7. A failed \<^verbatim>\<open>updateCmsEntry\<close> leaves the store as it was. A successful one leaves
  the other tables and every entry with another id as they were, and changes the entry
  with the given id only in the attributes supplied (and \<^verbatim>\<open>updatedAt\<close>): every
  unsupplied attribute retains its prior value. The row it returns is that entry after
  the update. An update that supplies no content attribute changes nothing at all: it
  fails (no entry with the id, or no values to set), so every attribute of every entry,
  \<^verbatim>\<open>updatedAt\<close> included, is as before.
\<close>

theorem updateCmsEntry_frame:
  "(\<forall>err db'. updateCmsEntry now db p = (Inl err, db') \<longrightarrow> db' = db)
   \<and> (nothing_supplied p \<longrightarrow>
        updateCmsEntry now db p =
          (Inl (if \<exists>e\<in>set (cmsEntryTable db). id_entry e = u_id p
                then NoValuesToSet else EntryNotFound (u_id p)), db)
        \<and> (\<forall>k<length (cmsEntryTable db).
              cmsEntryTable (snd (updateCmsEntry now db p)) ! k =
                (cmsEntryTable db ! k)
                  \<lparr>updatedAt := updatedAt (cmsEntryTable (snd (updateCmsEntry now db p)) ! k)\<rparr>))
   \<and> (\<forall>res db'. updateCmsEntry now db p = (Inr res, db') \<longrightarrow>
        cmsEntryMediaTable db' = cmsEntryMediaTable db
        \<and> cmsMediaTable db' = cmsMediaTable db
        \<and> userTable db' = userTable db
        \<and> length (cmsEntryTable db') = length (cmsEntryTable db)
        \<and> (\<forall>k<length (cmsEntryTable db).
              (id_entry (cmsEntryTable db ! k) \<noteq> u_id p \<longrightarrow>
                 cmsEntryTable db' ! k = cmsEntryTable db ! k)
              \<and> (id_entry (cmsEntryTable db ! k) = u_id p \<longrightarrow>
                   retains_unsupplied p (cmsEntryTable db ! k) (cmsEntryTable db' ! k)))
        \<and> (\<exists>k<length (cmsEntryTable db).
              id_entry (cmsEntryTable db ! k) = u_id p \<and> res = Value (cmsEntryTable db' ! k)))"
proof (intro conjI allI impI)
  fix err db'
  assume "updateCmsEntry now db p = (Inl err, db')"
  then show "db' = db"
    using updateCmsEntry_cases [of now db p] by auto
next
  assume n: "nothing_supplied p"
  show thrown: "updateCmsEntry now db p =
          (Inl (if \<exists>e\<in>set (cmsEntryTable db). id_entry e = u_id p
                then NoValuesToSet else EntryNotFound (u_id p)), db)"
  proof (cases "findFirst (eq id_entry (u_id p)) (cmsEntryTable db)")
    case None
    then have "\<not> (\<exists>e\<in>set (cmsEntryTable db). id_entry e = u_id p)"
      by (simp add: findFirst_id_None)
    with None show ?thesis by (simp add: updateCmsEntry_not_found)
  next
    case (Some e)
    then have "\<exists>e\<in>set (cmsEntryTable db). id_entry e = u_id p"
      using findFirst_id_None [of "u_id p" "cmsEntryTable db"] by simp
    moreover from n have "slug_change (u_slug p) e = None" by (rule slug_change_nothing)
    with Some have "updateCmsEntry now db p = update_statement now db p"
      by (rule updateCmsEntry_unchanged_slug)
    ultimately show ?thesis using n by (simp add: update_statement_nothing)
  qed
  show "cmsEntryTable (snd (updateCmsEntry now db p)) ! k =
          (cmsEntryTable db ! k)
            \<lparr>updatedAt := updatedAt (cmsEntryTable (snd (updateCmsEntry now db p)) ! k)\<rparr>"
    for k
    by (simp add: thrown)
next
  fix res db'
  assume run: "updateCmsEntry now db p = (Inr res, db')"
  let ?wh = "eq id_entry (u_id p)"
  let ?f = "set_columns p now"
  let ?rows = "cmsEntryTable db"
  from run updateCmsEntry_cases [of now db p]
  have ex: "\<exists>e\<in>set ?rows. id_entry e = u_id p"
    and st: "update_statement now db p = (Inr res, db')"
    by auto
  from st have db': "db' = db\<lparr>cmsEntryTable := map (\<lambda>r. if ?wh r then ?f r else r) ?rows\<rparr>"
    and res: "res = or_null (case map ?f (filter ?wh ?rows) of [] \<Rightarrow> None | u # _ \<Rightarrow> Some u)"
    by (rule update_statement_success)+
  show "cmsEntryMediaTable db' = cmsEntryMediaTable db" "cmsMediaTable db' = cmsMediaTable db"
    "userTable db' = userTable db" "length (cmsEntryTable db') = length ?rows"
    by (simp_all add: db')
  show "cmsEntryTable db' ! k = ?rows ! k"
    if "k < length ?rows" "id_entry (?rows ! k) \<noteq> u_id p" for k
    using that by (simp add: db' eq_def)
  show "retains_unsupplied p (?rows ! k) (cmsEntryTable db' ! k)"
    if "k < length ?rows" "id_entry (?rows ! k) = u_id p" for k
    using that by (simp add: db' eq_def retains_unsupplied_set_columns)
  show "\<exists>k<length ?rows. id_entry (?rows ! k) = u_id p \<and> res = Value (cmsEntryTable db' ! k)"
  proof -
    from ex have "filter ?wh ?rows \<noteq> []"
      by (auto simp: filter_empty_conv eq_def)
    then obtain u us where f: "filter ?wh ?rows = u # us"
      by (cases "filter ?wh ?rows") auto
    then have "u \<in> set (filter ?wh ?rows)" by simp
    then have u: "u \<in> set ?rows" "id_entry u = u_id p" by (auto simp: eq_def)
    from f obtain as bs where split: "?rows = as @ u # bs"
      by (auto simp: filter_eq_Cons_iff)
    define k where "k = length as"
    have k: "k < length ?rows" "?rows ! k = u"
      by (simp_all add: k_def split)
    have "res = Value (?f u)" by (simp add: res f or_null_def)
    moreover have "cmsEntryTable db' ! k = ?f u"
      using k u by (simp add: db' eq_def)
    ultimately show ?thesis using k u by auto
  qed
qed

theorem updateCmsEntry_frame_witness:
  "updateCmsEntry 200 media_db retitle_params =
     (Inr (Value (hello_entry\<lparr>title := ''Hello again'', updatedAt := 200\<rparr>)),
      media_db\<lparr>cmsEntryTable :=
                 [hello_entry\<lparr>title := ''Hello again'', updatedAt := 200\<rparr>,
                  news_entry, old_entry]\<rparr>)
   \<and> retains_unsupplied retitle_params hello_entry
        (hello_entry\<lparr>title := ''Hello again'', updatedAt := 200\<rparr>)
   \<and> updateCmsEntry 200 media_db (no_changes ''e1'') = (Inl NoValuesToSet, media_db)
   \<and> updateCmsEntry 200 media_db (no_changes ''e7'') = (Inl (EntryNotFound ''e7''), media_db)"
proof -
  have ids: "id_entry hello_entry = ''e1''" "id_entry news_entry = ''e2''"
    "id_entry old_entry = ''e3''"
    by (simp_all add: hello_entry_def news_entry_def old_entry_def)
  have entries: "cmsEntryTable media_db = [hello_entry, news_entry, old_entry]"
    by (simp add: media_db_def)
  have retitle: "updateCmsEntry 200 media_db retitle_params =
     (Inr (Value (hello_entry\<lparr>title := ''Hello again'', updatedAt := 200\<rparr>)),
      media_db\<lparr>cmsEntryTable :=
                 [hello_entry\<lparr>title := ''Hello again'', updatedAt := 200\<rparr>,
                  news_entry, old_entry]\<rparr>)"
    by (simp add: updateCmsEntry_def updateCmsEntry_run_def update_statement_def
        update_returning_def slug_change_def set_columns_def findFirst_def eq_def
        nothing_supplied_def or_null_def retitle_params_def no_changes_def entries ids)
  have supplied: "nothing_supplied (no_changes ''e1'')" "nothing_supplied (no_changes ''e7'')"
    by (simp_all add: nothing_supplied_def no_changes_def)
  from updateCmsEntry_frame [of 200 media_db "no_changes ''e1''"] supplied(1)
  have noop: "updateCmsEntry 200 media_db (no_changes ''e1'') = (Inl NoValuesToSet, media_db)"
    by (simp add: entries ids no_changes_def)
  from updateCmsEntry_frame [of 200 media_db "no_changes ''e7''"] supplied(2)
  have missing: "updateCmsEntry 200 media_db (no_changes ''e7'') =
      (Inl (EntryNotFound ''e7''), media_db)"
    by (simp add: entries ids no_changes_def)
  from updateCmsEntry_frame [of 200 media_db retitle_params] retitle
  have "\<forall>k<length (cmsEntryTable media_db).
          id_entry (cmsEntryTable media_db ! k) = u_id retitle_params \<longrightarrow>
          retains_unsupplied retitle_params (cmsEntryTable media_db ! k)
            ([hello_entry\<lparr>title := ''Hello again'', updatedAt := 200\<rparr>,
              news_entry, old_entry] ! k)"
    by simp
  from this [rule_format, of 0]
  have kept: "retains_unsupplied retitle_params hello_entry
        (hello_entry\<lparr>title := ''Hello again'', updatedAt := 200\<rparr>)"
    by (simp add: entries ids retitle_params_def no_changes_def)
  from retitle kept noop missing show ?thesis by (intro conjI)
qed

lemma publishedAt_set_columns: "publishedAt (set_columns p now e) = publishedAt e"
  by (simp add: set_columns_def)

lemma publishedAt_updated_rows:
  "map publishedAt (map (\<lambda>r. if wh r then set_columns p now r else r) rows) =
     map publishedAt rows"
  by (induction rows) (simp_all add: publishedAt_set_columns)

lemma publishedAt_update_statement:
  "map publishedAt (cmsEntryTable (snd (update_statement now db p))) =
     map publishedAt (cmsEntryTable db)"
proof (cases "update_statement now db p")
  case (Pair out db')
  show ?thesis
  proof (cases out)
    case (Inl err)
    with Pair have "db' = db" by (simp add: update_statement_failure)
    with Pair show ?thesis by simp
  next
    case (Inr res)
    with Pair have "update_statement now db p = (Inr res, db')" by simp
    then have "db' = db\<lparr>cmsEntryTable :=
            map (\<lambda>r. if eq id_entry (u_id p) r then set_columns p now r else r)
              (cmsEntryTable db)\<rparr>"
      by (rule update_statement_success)
    with Pair show ?thesis
      by (simp add: publishedAt_updated_rows publishedAt_set_columns)
  qed
qed

text \<open>
  C2, as the code has it. No operation of the module writes \<^verbatim>\<open>publishedAt\<close>.
  \<^verbatim>\<open>updateCmsEntry\<close> leaves the \<^verbatim>\<open>publishedAt\<close> of every entry as it was, whatever
  status is supplied, and the row it returns has the \<^verbatim>\<open>publishedAt\<close> of the entry
  before the update: publishing a draft leaves it null, and archiving or re-publishing
  leaves it unchanged. \<^verbatim>\<open>createCmsEntry\<close> inserts its row with a null
  \<^verbatim>\<open>publishedAt\<close>, whatever the status, and leaves the existing entries as they were.
\<close>

theorem publishedAt_never_written:
  "map publishedAt (cmsEntryTable (snd (updateCmsEntry now db p))) =
     map publishedAt (cmsEntryTable db)
   \<and> (\<forall>new. fst (updateCmsEntry now db p) = Inr (Value new) \<longrightarrow>
         (\<exists>old\<in>set (cmsEntryTable db).
            id_entry old = u_id p \<and> publishedAt new = publishedAt old))
   \<and> (\<forall>row db'. createCmsEntry cfg newId now db q = (Inr row, db') \<longrightarrow>
         publishedAt row = None
         \<and> cmsEntryTable db' = cmsEntryTable db @ [row])
   \<and> (\<forall>err db'. createCmsEntry cfg newId now db q = (Inl err, db') \<longrightarrow> db' = db)"
proof (intro conjI allI impI)
  show "map publishedAt (cmsEntryTable (snd (updateCmsEntry now db p))) =
     map publishedAt (cmsEntryTable db)"
    using updateCmsEntry_cases [of now db p] publishedAt_update_statement [of now db p]
    by auto
next
  fix new
  assume r: "fst (updateCmsEntry now db p) = Inr (Value new)"
  with updateCmsEntry_cases [of now db p]
  obtain db' where "update_statement now db p = (Inr (Value new), db')" by auto
  then have "Value new = or_null (case map (set_columns p now)
                               (filter (eq id_entry (u_id p)) (cmsEntryTable db)) of
                          [] \<Rightarrow> None | updatedEntry # _ \<Rightarrow> Some updatedEntry)"
    by (rule update_statement_success)
  then obtain old rest where f: "filter (eq id_entry (u_id p)) (cmsEntryTable db) = old # rest"
    and new: "new = set_columns p now old"
    by (cases "filter (eq id_entry (u_id p)) (cmsEntryTable db)") (auto simp: or_null_def)
  from f have "old \<in> set (filter (eq id_entry (u_id p)) (cmsEntryTable db))" by simp
  then have "old \<in> set (cmsEntryTable db)" "id_entry old = u_id p" by (auto simp: eq_def)
  then show "\<exists>old\<in>set (cmsEntryTable db). id_entry old = u_id p \<and> publishedAt new = publishedAt old"
    using new by (auto simp: publishedAt_set_columns)
next
  fix row db'
  assume "createCmsEntry cfg newId now db q = (Inr row, db')"
  then obtain coll where "cfg (c_collectionSlug q) = Some coll"
    and "\<not> (\<exists>e\<in>set (cmsEntryTable db). collection e = coll_slug coll \<and> slug e = c_slug q)"
    and "row = insert_values newId now (coll_slug coll) q
                 (case c_status q of None \<Rightarrow> DRAFT | Some v \<Rightarrow> v)"
    and "db' = db\<lparr>cmsEntryTable := cmsEntryTable db @ [row]\<rparr>"
    by (rule create_success_cases)
  then show "publishedAt row = None" "cmsEntryTable db' = cmsEntryTable db @ [row]"
    by (simp_all add: insert_values_def)
next
  fix err db'
  assume "createCmsEntry cfg newId now db q = (Inl err, db')"
  then show "db' = db" by (rule create_failure_no_write)
qed

theorem publishedAt_never_written_witness:
  "updateCmsEntry 400 media_db ((no_changes ''e2'')\<lparr>u_status := Some ARCHIVED\<rparr>) =
     (Inr (Value (news_entry\<lparr>status := ARCHIVED, updatedAt := 400\<rparr>)),
      media_db\<lparr>cmsEntryTable :=
                 [hello_entry, news_entry\<lparr>status := ARCHIVED, updatedAt := 400\<rparr>, old_entry]\<rparr>)
   \<and> publishedAt (news_entry\<lparr>status := ARCHIVED, updatedAt := 400\<rparr>) = Some 300
   \<and> publishedAt news_entry = Some 300
   \<and> map publishedAt
        (cmsEntryTable (snd (updateCmsEntry 400 media_db
           ((no_changes ''e2'')\<lparr>u_status := Some ARCHIVED\<rparr>)))) = [None, Some 300, Some 55]"
proof -
  have ids: "id_entry hello_entry = ''e1''" "id_entry news_entry = ''e2''"
    "id_entry old_entry = ''e3''"
    by (simp_all add: hello_entry_def news_entry_def old_entry_def)
  have pubs: "publishedAt hello_entry = None" "publishedAt news_entry = Some 300"
    "publishedAt old_entry = Some 55"
    by (simp_all add: hello_entry_def news_entry_def old_entry_def)
  have entries: "cmsEntryTable media_db = [hello_entry, news_entry, old_entry]"
    by (simp add: media_db_def)
  have archive: "updateCmsEntry 400 media_db ((no_changes ''e2'')\<lparr>u_status := Some ARCHIVED\<rparr>) =
     (Inr (Value (news_entry\<lparr>status := ARCHIVED, updatedAt := 400\<rparr>)),
      media_db\<lparr>cmsEntryTable :=
                 [hello_entry, news_entry\<lparr>status := ARCHIVED, updatedAt := 400\<rparr>, old_entry]\<rparr>)"
    by (simp add: updateCmsEntry_def updateCmsEntry_run_def update_statement_def
        update_returning_def slug_change_def set_columns_def findFirst_def eq_def
        nothing_supplied_def or_null_def no_changes_def entries ids)
  from publishedAt_never_written [of 400 media_db "(no_changes ''e2'')\<lparr>u_status := Some ARCHIVED\<rparr>"]
  have kept: "map publishedAt
        (cmsEntryTable (snd (updateCmsEntry 400 media_db
           ((no_changes ''e2'')\<lparr>u_status := Some ARCHIVED\<rparr>)))) = [None, Some 300, Some 55]"
    by (simp add: entries pubs)
  from archive kept pubs(2) show ?thesis by simp
qed

theorem publish_draft_leaves_publishedAt_null:
  "status hello_entry = DRAFT
   \<and> publishedAt hello_entry = None
   \<and> updateCmsEntry 200 hello_db publish_params =
       (Inr (Value (hello_entry\<lparr>status := PUBLISHED, updatedAt := 200\<rparr>)),
        hello_db\<lparr>cmsEntryTable := [hello_entry\<lparr>status := PUBLISHED, updatedAt := 200\<rparr>]\<rparr>)
   \<and> status (hello_entry\<lparr>status := PUBLISHED, updatedAt := 200\<rparr>) = PUBLISHED
   \<and> publishedAt (hello_entry\<lparr>status := PUBLISHED, updatedAt := 200\<rparr>) = None"
  by (simp add: updateCmsEntry_def updateCmsEntry_run_def update_statement_def
      update_returning_def slug_change_def set_columns_def findFirst_def eq_def
      nothing_supplied_def or_null_def
      publish_params_def no_changes_def hello_db_def empty_db_def hello_entry_def)

text \<open>
  C1, as the code has it. Suppose the existence check of \<^verbatim>\<open>updateCmsEntry\<close> finds the
  entry. If the slug guard calls for a conflict check and the check finds a holder of
  the new slug, the function fails with the duplicate-slug error and the update
  statement is not run. Otherwise, when no attribute is supplied, \<^verbatim>\<open>.set\<close> throws and no
  statement is run; when an attribute is supplied, the update statement runs, and if it
  then affects no row (other requests removed the entry in the meantime) the function
  returns null, not an error, and leaves the store as the other requests left it.
\<close>

theorem updateCmsEntry_race_returns_null:
  "findFirst (eq id_entry (u_id p)) (cmsEntryTable db) = Some e \<longrightarrow>
     (case slug_change (u_slug p) e of
        None \<Rightarrow>
          (\<not> (\<exists>x\<in>set (cmsEntryTable (env1 db)). id_entry x = u_id p) \<longrightarrow>
             updateCmsEntry_run env1 env2 now db p =
               (if nothing_supplied p then Inl NoValuesToSet else Inr Null, env1 db))
      | Some s \<Rightarrow>
          (if \<exists>x\<in>set (cmsEntryTable (env1 db)). collection x = collection e \<and> slug x = s
           then updateCmsEntry_run env1 env2 now db p =
                  (Inl (DuplicateSlug s (collection e)), env1 db)
           else (\<not> (\<exists>x\<in>set (cmsEntryTable (env2 (env1 db))). id_entry x = u_id p) \<longrightarrow>
                  updateCmsEntry_run env1 env2 now db p = (Inr Null, env2 (env1 db)))))"
proof
  assume found: "findFirst (eq id_entry (u_id p)) (cmsEntryTable db) = Some e"
  show "case slug_change (u_slug p) e of
        None \<Rightarrow>
          (\<not> (\<exists>x\<in>set (cmsEntryTable (env1 db)). id_entry x = u_id p) \<longrightarrow>
             updateCmsEntry_run env1 env2 now db p =
               (if nothing_supplied p then Inl NoValuesToSet else Inr Null, env1 db))
      | Some s \<Rightarrow>
          (if \<exists>x\<in>set (cmsEntryTable (env1 db)). collection x = collection e \<and> slug x = s
           then updateCmsEntry_run env1 env2 now db p =
                  (Inl (DuplicateSlug s (collection e)), env1 db)
           else (\<not> (\<exists>x\<in>set (cmsEntryTable (env2 (env1 db))). id_entry x = u_id p) \<longrightarrow>
                  updateCmsEntry_run env1 env2 now db p = (Inr Null, env2 (env1 db))))"
  proof (cases "slug_change (u_slug p) e")
    case None
    with found show ?thesis
      by (simp add: updateCmsEntry_run_def update_statement_vanished update_statement_nothing)
  next
    case (Some s)
    then have supplied: "\<not> nothing_supplied p"
      by (auto simp: nothing_supplied_def slug_change_def)
    let ?conflict = "findFirst (and_conds [eq collection (collection e), eq slug s])
                       (cmsEntryTable (env1 db))"
    show ?thesis
    proof (cases "\<exists>x\<in>set (cmsEntryTable (env1 db)). collection x = collection e \<and> slug x = s")
      case True
      then have "?conflict \<noteq> None"
        by (auto simp: findFirst_None and_conds_two)
      with found Some True show ?thesis
        by (auto simp: updateCmsEntry_run_def)
    next
      case False
      then have "?conflict = None"
        by (auto simp: findFirst_None and_conds_two)
      with found Some False supplied show ?thesis
        by (auto simp: updateCmsEntry_run_def update_statement_vanished)
    qed
  qed
qed

theorem updateCmsEntry_race_returns_null_witness:
  "findFirst (eq id_entry (u_id retitle_params)) (cmsEntryTable hello_db) = Some hello_entry
   \<and> concurrent_delete hello_db = empty_db
   \<and> updateCmsEntry_run concurrent_delete no_interference 200 hello_db retitle_params =
       (Inr Null, empty_db)
   \<and> updateCmsEntry_run concurrent_delete no_interference 200 hello_db (no_changes ''e1'') =
       (Inl NoValuesToSet, empty_db)"
proof -
  have found: "findFirst (eq id_entry (u_id retitle_params)) (cmsEntryTable hello_db) =
      Some hello_entry"
    "findFirst (eq id_entry (u_id (no_changes ''e1''))) (cmsEntryTable hello_db) =
      Some hello_entry"
    by (simp_all add: findFirst_def eq_def retitle_params_def no_changes_def hello_db_def
        hello_entry_def)
  have gone: "concurrent_delete hello_db = empty_db"
    by (simp add: concurrent_delete_def deleteCmsEntry_def deleteCmsEntry_run_def
        findFirst_def eq_def hello_db_def hello_entry_def empty_db_def)
  have same: "slug_change (u_slug retitle_params) hello_entry = None"
    "slug_change (u_slug (no_changes ''e1'')) hello_entry = None"
    by (simp_all add: slug_change_def retitle_params_def no_changes_def)
  have supplied: "\<not> nothing_supplied retitle_params" "nothing_supplied (no_changes ''e1'')"
    by (simp_all add: nothing_supplied_def retitle_params_def no_changes_def)
  from updateCmsEntry_race_returns_null
         [of retitle_params hello_db hello_entry concurrent_delete no_interference 200]
       found(1) same(1) gone supplied(1)
  have a: "updateCmsEntry_run concurrent_delete no_interference 200 hello_db retitle_params =
       (Inr Null, empty_db)"
    by (simp add: empty_db_def)
  from updateCmsEntry_race_returns_null
         [of "no_changes ''e1''" hello_db hello_entry concurrent_delete no_interference 200]
       found(2) same(2) gone supplied(2)
  have b: "updateCmsEntry_run concurrent_delete no_interference 200 hello_db (no_changes ''e1'') =
       (Inl NoValuesToSet, empty_db)"
    by (simp add: empty_db_def)
  from found(1) gone a b show ?thesis by (intro conjI)
qed

theorem update_race_is_not_an_error:
  "findFirst (eq id_entry ''e1'') (cmsEntryTable hello_db) = Some hello_entry
   \<and> updateCmsEntry_run concurrent_delete no_interference 200 hello_db retitle_params =
       (Inr Null, empty_db)"
  by (simp add: updateCmsEntry_run_def update_statement_def update_returning_def
      slug_change_def findFirst_def eq_def retitle_params_def no_changes_def
      nothing_supplied_def or_null_def slug_index_conflict_def
      concurrent_delete_def deleteCmsEntry_def deleteCmsEntry_run_def
      hello_db_def hello_entry_def empty_db_def)

section \<open>Properties of deleteCmsEntry\<close>

text \<open>
  C3, as the code has it. \<^verbatim>\<open>deleteCmsEntry\<close> fails with the entry-not-found error,
  without a write, when no entry has the id. Otherwise it runs two separate delete
  statements, with no transaction around them. When the store does not fail, the
  associations of the entry and then the entry row are removed, and nothing else (the
  media rows stay). When the store fails between the two steps, the associations are
  already deleted and the entry row remains: the state has changed. When the store
  fails before the first delete, the state is unchanged. In no case does an association
  of the entry remain once a delete statement has run.
\<close>

theorem deleteCmsEntry_two_steps:
  "(\<not> (\<exists>e\<in>set (cmsEntryTable db). id_entry e = i) \<longrightarrow>
      deleteCmsEntry db i = (Inl (EntryNotFound i), db))
   \<and> ((\<exists>e\<in>set (cmsEntryTable db). id_entry e = i) \<longrightarrow>
        deleteCmsEntry db i =
          (Inr (), db\<lparr>cmsEntryMediaTable := filter (\<lambda>m. entryId m \<noteq> i) (cmsEntryMediaTable db),
                       cmsEntryTable := filter (\<lambda>e. id_entry e \<noteq> i) (cmsEntryTable db)\<rparr>)
        \<and> (\<not> fails 0 \<and> \<not> fails 1 \<and> fails 2 \<longrightarrow>
             deleteCmsEntry_run fails db i =
               (Inl StoreFailure,
                db\<lparr>cmsEntryMediaTable := filter (\<lambda>m. entryId m \<noteq> i) (cmsEntryMediaTable db)\<rparr>))
        \<and> (fails 0 \<or> fails 1 \<longrightarrow> deleteCmsEntry_run fails db i = (Inl StoreFailure, db)))"
proof (intro conjI impI)
  assume "\<not> (\<exists>e\<in>set (cmsEntryTable db). id_entry e = i)"
  then have "findFirst (eq id_entry i) (cmsEntryTable db) = None"
    by (simp add: findFirst_id_None)
  then show "deleteCmsEntry db i = (Inl (EntryNotFound i), db)"
    by (simp add: deleteCmsEntry_def deleteCmsEntry_run_def)
next
  assume "\<exists>e\<in>set (cmsEntryTable db). id_entry e = i"
  then have "findFirst (eq id_entry i) (cmsEntryTable db) \<noteq> None"
    by (simp add: findFirst_id_None)
  then obtain e where found: "findFirst (eq id_entry i) (cmsEntryTable db) = Some e"
    by auto
  show "deleteCmsEntry db i =
          (Inr (), db\<lparr>cmsEntryMediaTable := filter (\<lambda>m. entryId m \<noteq> i) (cmsEntryMediaTable db),
                       cmsEntryTable := filter (\<lambda>e. id_entry e \<noteq> i) (cmsEntryTable db)\<rparr>)"
    using found by (simp add: deleteCmsEntry_def deleteCmsEntry_run_def eq_def)
  show "deleteCmsEntry_run fails db i =
               (Inl StoreFailure,
                db\<lparr>cmsEntryMediaTable := filter (\<lambda>m. entryId m \<noteq> i) (cmsEntryMediaTable db)\<rparr>)"
    if "\<not> fails 0 \<and> \<not> fails 1 \<and> fails 2"
    using found that by (simp add: deleteCmsEntry_run_def eq_def)
  show "deleteCmsEntry_run fails db i = (Inl StoreFailure, db)" if "fails 0 \<or> fails 1"
    using found that by (auto simp: deleteCmsEntry_run_def)
qed

theorem deleteCmsEntry_two_steps_witness:
  "deleteCmsEntry media_db ''e1'' =
     (Inr (), media_db\<lparr>cmsEntryMediaTable := [em_other],
                        cmsEntryTable := [news_entry, old_entry]\<rparr>)
   \<and> deleteCmsEntry_run fails_second_delete media_db ''e1'' =
       (Inl StoreFailure, media_db\<lparr>cmsEntryMediaTable := [em_other]\<rparr>)
   \<and> deleteCmsEntry media_db ''e7'' = (Inl (EntryNotFound ''e7''), media_db)"
proof -
  have ids: "id_entry hello_entry = ''e1''" "id_entry news_entry = ''e2''"
    "id_entry old_entry = ''e3''"
    "entryId em_first = ''e1''" "entryId em_second = ''e1''" "entryId em_other = ''e2''"
    by (simp_all add: hello_entry_def news_entry_def old_entry_def em_first_def
        em_second_def em_other_def)
  have tables: "cmsEntryTable media_db = [hello_entry, news_entry, old_entry]"
    "cmsEntryMediaTable media_db = [em_second, em_first, em_other]"
    by (simp_all add: media_db_def)
  have faults: "\<not> fails_second_delete 0 \<and> \<not> fails_second_delete 1 \<and> fails_second_delete 2"
    by (simp add: fails_second_delete_def)
  have present: "\<exists>e\<in>set (cmsEntryTable media_db). id_entry e = ''e1''"
    and absent: "\<not> (\<exists>e\<in>set (cmsEntryTable media_db). id_entry e = ''e7'')"
    by (simp_all add: tables ids)
  from deleteCmsEntry_two_steps [of media_db "''e1''" fails_second_delete] present faults
  have "deleteCmsEntry media_db ''e1'' =
     (Inr (), media_db\<lparr>cmsEntryMediaTable := [em_other],
                        cmsEntryTable := [news_entry, old_entry]\<rparr>)"
    and "deleteCmsEntry_run fails_second_delete media_db ''e1'' =
       (Inl StoreFailure, media_db\<lparr>cmsEntryMediaTable := [em_other]\<rparr>)"
    by (simp_all add: tables ids)
  moreover from deleteCmsEntry_two_steps [of media_db "''e7''" fails_second_delete] absent
  have "deleteCmsEntry media_db ''e7'' = (Inl (EntryNotFound ''e7''), media_db)"
    by simp
  ultimately show ?thesis by (intro conjI)
qed

theorem delete_failure_between_steps:
  "deleteCmsEntry_run fails_second_delete media_db ''e1'' =
     (Inl StoreFailure, media_db\<lparr>cmsEntryMediaTable := [em_other]\<rparr>)
   \<and> media_db\<lparr>cmsEntryMediaTable := [em_other]\<rparr> \<noteq> media_db
   \<and> cmsEntryTable (media_db\<lparr>cmsEntryMediaTable := [em_other]\<rparr>) =
       [hello_entry, news_entry, old_entry]
   \<and> id_entry hello_entry = ''e1''"
  by (simp add: deleteCmsEntry_run_def fails_second_delete_def findFirst_def eq_def
      media_db_def hello_entry_def news_entry_def old_entry_def em_first_def em_second_def
      em_other_def)

section \<open>Uniqueness of (collection, slug)\<close>

lemma unique_slugs_keys: "unique_slugs es \<longleftrightarrow> distinct (map slug_key es)"
proof -
  have "slug_key = (\<lambda>e. (collection e, slug e))"
    by (rule ext) (simp add: slug_key_def)
  then show ?thesis by (simp add: unique_slugs_def)
qed

lemma unique_slugs_create:
  assumes "unique_slugs (cmsEntryTable db)"
  shows "unique_slugs (cmsEntryTable (snd (createCmsEntry cfg newId now db p)))"
proof (cases "createCmsEntry cfg newId now db p")
  case (Pair out db')
  show ?thesis
  proof (cases out)
    case (Inl err)
    with Pair have "db' = db" by (simp add: create_failure_no_write)
    with Pair assms show ?thesis by simp
  next
    case (Inr row)
    with Pair have "createCmsEntry cfg newId now db p = (Inr row, db')" by simp
    then obtain coll where "cfg (c_collectionSlug p) = Some coll"
      and fresh: "\<not> (\<exists>e\<in>set (cmsEntryTable db). collection e = coll_slug coll \<and> slug e = c_slug p)"
      and row: "row = insert_values newId now (coll_slug coll) p
                 (case c_status p of None \<Rightarrow> DRAFT | Some v \<Rightarrow> v)"
      and db': "db' = db\<lparr>cmsEntryTable := cmsEntryTable db @ [row]\<rparr>"
      by (rule create_success_cases)
    have "collection row = coll_slug coll" "slug row = c_slug p"
      by (simp_all add: row insert_values_def)
    with fresh have "slug_key row \<notin> set (map slug_key (cmsEntryTable db))"
      by (simp only: slug_key_mem) simp
    with assms have "unique_slugs (cmsEntryTable db @ [row])"
      by (simp add: unique_slugs_keys)
    with Pair db' show ?thesis by simp
  qed
qed

lemma unique_slugs_delete:
  assumes "unique_slugs (cmsEntryTable db)"
  shows "unique_slugs (cmsEntryTable (snd (deleteCmsEntry db i)))"
proof (cases "findFirst (eq id_entry i) (cmsEntryTable db)")
  case None
  with assms show ?thesis by (simp add: deleteCmsEntry_def deleteCmsEntry_run_def)
next
  case (Some e)
  have "unique_slugs (filter (\<lambda>e. \<not> eq id_entry i e) (cmsEntryTable db))"
    using assms by (simp add: unique_slugs_keys distinct_map_filter)
  with Some show ?thesis by (simp add: deleteCmsEntry_def deleteCmsEntry_run_def)
qed

lemma mset_updated_rows:
  "mset (map (\<lambda>r. if wh r then f r else r) rows) =
     mset (map f (filter wh rows)) + mset (filter (\<lambda>r. \<not> wh r) rows)"
  by (induction rows) simp_all

lemma slug_key_set_columns_unassigned:
  "u_slug p = None \<Longrightarrow> slug_key (set_columns p now e) = slug_key e"
  by (simp add: slug_key_def set_columns_def)

lemma slug_key_set_columns_assigned:
  "u_slug p = Some s \<Longrightarrow> slug_key (set_columns p now e) = (collection e, s)"
  by (simp add: slug_key_def set_columns_def)

lemma unique_slugs_updated_rows:
  assumes u: "unique_slugs rows"
    and ok: "u_slug p \<noteq> None \<longrightarrow>
               \<not> slug_index_conflict (map (set_columns p now) (filter wh rows))
                   (filter (\<lambda>r. \<not> wh r) rows)"
  shows "unique_slugs (map (\<lambda>r. if wh r then set_columns p now r else r) rows)"
proof (cases "u_slug p")
  case None
  have "map slug_key (map (\<lambda>r. if wh r then set_columns p now r else r) rows) =
          map slug_key rows"
    by (induction rows) (simp_all add: slug_key_set_columns_unassigned [OF None])
  with u show ?thesis by (simp only: unique_slugs_keys)
next
  case (Some s)
  let ?updated = "map (set_columns p now) (filter wh rows)"
  let ?others = "filter (\<lambda>r. \<not> wh r) rows"
  from Some ok have "\<not> slug_index_conflict ?updated ?others" by simp
  then have "distinct (map slug_key ?updated)"
    and "set (map slug_key ?updated) \<inter> set (map slug_key ?others) = {}"
    by (simp_all add: slug_index_conflict_def)
  moreover have "distinct (map slug_key ?others)"
    using u by (simp add: unique_slugs_keys distinct_map_filter)
  ultimately have d: "distinct (map slug_key ?updated @ map slug_key ?others)"
    by (simp only: distinct_append)
  have "mset (map slug_key (map (\<lambda>r. if wh r then set_columns p now r else r) rows)) =
          mset (map slug_key ?updated @ map slug_key ?others)"
    using mset_updated_rows [of wh "set_columns p now" rows]
    by (metis mset_map mset_append map_append mset_map)
  then have "distinct (map slug_key (map (\<lambda>r. if wh r then set_columns p now r else r) rows)) =
          distinct (map slug_key ?updated @ map slug_key ?others)"
    by (rule mset_eq_imp_distinct_iff)
  with d show ?thesis by (simp only: unique_slugs_keys)
qed

lemma unique_slugs_update:
  assumes "unique_slugs (cmsEntryTable db)"
  shows "unique_slugs (cmsEntryTable (snd (updateCmsEntry now db p)))"
proof -
  from updateCmsEntry_cases [of now db p]
  consider err where "updateCmsEntry now db p = (Inl err, db)"
    | res db' where "updateCmsEntry now db p = (Inr res, db')"
        "update_statement now db p = (Inr res, db')"
    by blast
  then show ?thesis
  proof cases
    case 1
    with assms show ?thesis by simp
  next
    case 2
    from 2(2) have db': "db' = db\<lparr>cmsEntryTable :=
            map (\<lambda>r. if eq id_entry (u_id p) r then set_columns p now r else r)
              (cmsEntryTable db)\<rparr>"
      and ok: "u_slug p \<noteq> None \<longrightarrow>
           \<not> slug_index_conflict
               (map (set_columns p now) (filter (eq id_entry (u_id p)) (cmsEntryTable db)))
               (filter (\<lambda>r. \<not> eq id_entry (u_id p) r) (cmsEntryTable db))"
      by (rule update_statement_success)+
    from assms ok have "unique_slugs
        (map (\<lambda>r. if eq id_entry (u_id p) r then set_columns p now r else r)
           (cmsEntryTable db))"
      by (rule unique_slugs_updated_rows)
    with 2(1) db' show ?thesis by simp
  qed
qed

lemma update_rejects_held_slug:
  assumes found: "findFirst (eq id_entry (u_id p)) (cmsEntryTable db) = Some e"
    and s: "u_slug p = Some s"
    and ne: "s \<noteq> slug e"
    and held: "\<exists>x\<in>set (cmsEntryTable db). collection x = collection e \<and> slug x = s"
  shows "updateCmsEntry now db p =
           (Inl (if s = [] then UniqueConstraintViolation
                 else DuplicateSlug s (collection e)), db)"
proof (cases "s = []")
  case False
  with s ne have change: "slug_change (u_slug p) e = Some s"
    by (simp add: slug_change_def)
  from held have "findFirst (and_conds [eq collection (collection e), eq slug s])
                    (cmsEntryTable db) \<noteq> None"
    by (auto simp: findFirst_None and_conds_two)
  then obtain c where "findFirst (and_conds [eq collection (collection e), eq slug s])
                    (cmsEntryTable db) = Some c"
    by auto
  with found change have "updateCmsEntry now db p = (Inl (DuplicateSlug s (collection e)), db)"
    by (rule updateCmsEntry_conflict)
  with False show ?thesis by simp
next
  case True
  let ?wh = "eq id_entry (u_id p)"
  let ?f = "set_columns p now"
  let ?updated = "map ?f (filter ?wh (cmsEntryTable db))"
  let ?others = "filter (\<lambda>r. \<not> ?wh r) (cmsEntryTable db)"
  from True s have "slug_change (u_slug p) e = None"
    by (simp add: slug_change_def)
  with found have run: "updateCmsEntry now db p = update_statement now db p"
    by (rule updateCmsEntry_unchanged_slug)
  from found have "e \<in> set (cmsEntryTable db) \<and> ?wh e" by (rule findFirst_Some_mem)
  then have e: "e \<in> set (filter ?wh (cmsEntryTable db))" by simp
  then have ke: "(collection e, s) \<in> set (map slug_key ?updated)"
    using slug_key_set_columns_assigned [OF s, of now e] by (simp add: image_iff) force
  from held obtain x where x: "x \<in> set (cmsEntryTable db)"
    and cx: "collection x = collection e" and sx: "slug x = s"
    by blast
  have conflict: "slug_index_conflict ?updated ?others"
  proof (cases "?wh x")
    case False
    with x have "x \<in> set ?others" by simp
    moreover have "slug_key x = (collection e, s)" by (simp add: slug_key_def cx sx)
    ultimately have "(collection e, s) \<in> set (map slug_key ?others)"
      by (simp add: image_iff) force
    with ke show ?thesis by (auto simp: slug_index_conflict_def)
  next
    case True
    with x have xin: "x \<in> set (filter ?wh (cmsEntryTable db))" by simp
    have "\<not> distinct (map slug_key ?updated)"
    proof
      assume "distinct (map slug_key ?updated)"
      then have "distinct (map (slug_key \<circ> ?f) (filter ?wh (cmsEntryTable db)))"
        by simp
      then have "inj_on (slug_key \<circ> ?f) (set (filter ?wh (cmsEntryTable db)))"
        by (simp only: distinct_map)
      moreover have "(slug_key \<circ> ?f) e = (slug_key \<circ> ?f) x"
        by (simp add: slug_key_set_columns_assigned [OF s] cx)
      ultimately have "e = x" using e xin by (rule inj_onD)
      with sx ne show False by simp
    qed
    then show ?thesis by (simp add: slug_index_conflict_def)
  qed
  have "\<not> nothing_supplied p" using s by (simp add: nothing_supplied_def)
  with conflict s have "update_statement now db p = (Inl UniqueConstraintViolation, db)"
    by (simp add: update_statement_def update_returning_def)
  with run True show ?thesis by simp
qed

lemma filter_only_row:
  assumes "distinct (map id_entry rows)" "e \<in> set rows"
  shows "filter (eq id_entry (id_entry e)) rows = [e]"
  using assms
proof (induction rows)
  case Nil
  then show ?case by simp
next
  case (Cons r rows)
  show ?case
  proof (cases "r = e")
    case True
    with Cons.prems(1) have "\<forall>x\<in>set rows. id_entry x \<noteq> id_entry e"
      by (auto simp: image_iff)
    then have "filter (eq id_entry (id_entry e)) rows = []"
      by (auto simp: filter_empty_conv eq_def)
    with True show ?thesis by (simp add: eq_def)
  next
    case False
    with Cons.prems have mem: "e \<in> set rows" and d: "distinct (map id_entry rows)"
      by simp_all
    from Cons.prems(1) mem have "id_entry r \<noteq> id_entry e"
      by (auto simp: image_iff)
    with Cons.IH [OF d mem] show ?thesis by (simp add: eq_def)
  qed
qed

lemma update_own_slug:
  assumes found: "findFirst (eq id_entry (u_id p)) (cmsEntryTable db) = Some e"
    and s: "u_slug p = Some (slug e)"
    and u: "unique_slugs (cmsEntryTable db)"
    and ids: "distinct (map id_entry (cmsEntryTable db))"
  shows "fst (updateCmsEntry now db p) = Inr (Value (set_columns p now e))"
proof -
  let ?wh = "eq id_entry (u_id p)"
  let ?f = "set_columns p now"
  let ?rows = "cmsEntryTable db"
  from s have "slug_change (u_slug p) e = None" by (simp add: slug_change_def)
  with found have run: "updateCmsEntry now db p = update_statement now db p"
    by (rule updateCmsEntry_unchanged_slug)
  from found have "e \<in> set ?rows \<and> ?wh e" by (rule findFirst_Some_mem)
  then have mem: "e \<in> set ?rows" and id: "u_id p = id_entry e" by (simp_all add: eq_def)
  from ids mem have only: "filter ?wh ?rows = [e]"
    unfolding id by (rule filter_only_row)
  have key: "slug_key (?f e) = slug_key e"
    using slug_key_set_columns_assigned [OF s, of now e] by (simp add: slug_key_def)
  have "slug_key e \<notin> set (map slug_key (filter (\<lambda>r. \<not> ?wh r) ?rows))"
  proof
    assume "slug_key e \<in> set (map slug_key (filter (\<lambda>r. \<not> ?wh r) ?rows))"
    then obtain x where x: "x \<in> set ?rows" "\<not> ?wh x" and k: "slug_key x = slug_key e"
      by (auto simp: image_iff)
    from u have "inj_on slug_key (set ?rows)"
      by (simp add: unique_slugs_keys distinct_map)
    from this k x(1) mem have "x = e" by (rule inj_onD)
    with x(2) id show False by (simp add: eq_def)
  qed
  then have "\<not> slug_index_conflict (map ?f (filter ?wh ?rows)) (filter (\<lambda>r. \<not> ?wh r) ?rows)"
    by (simp add: slug_index_conflict_def only key)
  moreover have "\<not> nothing_supplied p" using s by (simp add: nothing_supplied_def)
  ultimately have "fst (update_statement now db p) = Inr (Value (?f e))"
    by (simp add: update_statement_def update_returning_def only or_null_def)
  with run show ?thesis by simp
qed

text \<open>
  C10. Every mutation keeps the (collection, slug) pairs of the entries distinct, whatever
  the statuses. \<^verbatim>\<open>createCmsEntry\<close> rejects a create when any existing entry holds the
  slug in the collection. \<^verbatim>\<open>updateCmsEntry\<close> rejects a change to a slug that another
  entry of the same collection holds and leaves the store as it was: through its own
  conflict check for a slug that is not empty, and through the uniqueness constraint of
  the store for the empty slug, which the guard takes for no slug. An update that
  re-supplies the entry's own slug runs no conflict check and, in a store with distinct
  ids and distinct pairs, succeeds.
\<close>

theorem mutations_keep_slugs_unique:
  "(unique_slugs (cmsEntryTable db) \<longrightarrow>
      unique_slugs (cmsEntryTable (snd (createCmsEntry cfg newId now db q)))
      \<and> unique_slugs (cmsEntryTable (snd (updateCmsEntry now db p)))
      \<and> unique_slugs (cmsEntryTable (snd (deleteCmsEntry db i))))
   \<and> (\<forall>coll. cfg (c_collectionSlug q) = Some coll
          \<and> (\<exists>e\<in>set (cmsEntryTable db). collection e = coll_slug coll \<and> slug e = c_slug q)
        \<longrightarrow> createCmsEntry cfg newId now db q =
              (Inl (DuplicateSlug (c_slug q) (coll_slug coll)), db))
   \<and> (\<forall>e s. findFirst (eq id_entry (u_id p)) (cmsEntryTable db) = Some e
          \<and> u_slug p = Some s \<and> s \<noteq> slug e
          \<and> (\<exists>x\<in>set (cmsEntryTable db). collection x = collection e \<and> slug x = s)
        \<longrightarrow> updateCmsEntry now db p =
              (Inl (if s = [] then UniqueConstraintViolation
                    else DuplicateSlug s (collection e)), db))
   \<and> (\<forall>e. findFirst (eq id_entry (u_id p)) (cmsEntryTable db) = Some e
          \<and> u_slug p = Some (slug e)
        \<longrightarrow> slug_change (u_slug p) e = None
            \<and> updateCmsEntry now db p = update_statement now db p
            \<and> (unique_slugs (cmsEntryTable db) \<and> distinct (map id_entry (cmsEntryTable db))
                 \<longrightarrow> fst (updateCmsEntry now db p) = Inr (Value (set_columns p now e))))"
proof (intro conjI allI impI)
  assume u: "unique_slugs (cmsEntryTable db)"
  from u show "unique_slugs (cmsEntryTable (snd (createCmsEntry cfg newId now db q)))"
    by (rule unique_slugs_create)
  from u show "unique_slugs (cmsEntryTable (snd (updateCmsEntry now db p)))"
    by (rule unique_slugs_update)
  from u show "unique_slugs (cmsEntryTable (snd (deleteCmsEntry db i)))"
    by (rule unique_slugs_delete)
next
  fix coll
  assume "cfg (c_collectionSlug q) = Some coll
          \<and> (\<exists>e\<in>set (cmsEntryTable db). collection e = coll_slug coll \<and> slug e = c_slug q)"
  then show "createCmsEntry cfg newId now db q =
              (Inl (DuplicateSlug (c_slug q) (coll_slug coll)), db)"
    by (simp add: create_duplicate)
next
  fix e s
  assume "findFirst (eq id_entry (u_id p)) (cmsEntryTable db) = Some e
          \<and> u_slug p = Some s \<and> s \<noteq> slug e
          \<and> (\<exists>x\<in>set (cmsEntryTable db). collection x = collection e \<and> slug x = s)"
  then show "updateCmsEntry now db p =
              (Inl (if s = [] then UniqueConstraintViolation
                    else DuplicateSlug s (collection e)), db)"
    by (intro update_rejects_held_slug) simp_all
next
  fix e
  assume h: "findFirst (eq id_entry (u_id p)) (cmsEntryTable db) = Some e
          \<and> u_slug p = Some (slug e)"
  then show none: "slug_change (u_slug p) e = None"
    by (simp add: slug_change_def)
  with h show "updateCmsEntry now db p = update_statement now db p"
    by (simp add: updateCmsEntry_unchanged_slug)
  assume "unique_slugs (cmsEntryTable db) \<and> distinct (map id_entry (cmsEntryTable db))"
  with h show "fst (updateCmsEntry now db p) = Inr (Value (set_columns p now e))"
    by (intro update_own_slug) simp_all
qed

theorem mutations_keep_slugs_unique_witness:
  "unique_slugs (cmsEntryTable blank_db)
   \<and> updateCmsEntry 200 blank_db blank_slug_params = (Inl UniqueConstraintViolation, blank_db)
   \<and> updateCmsEntry 200 blank_db ((no_changes ''e1'')\<lparr>u_slug := Some ''news''\<rparr>) =
       (Inl (DuplicateSlug ''news'' ''blog''), blank_db)
   \<and> fst (updateCmsEntry 200 blank_db ((no_changes ''e2'')\<lparr>u_slug := Some ''news''\<rparr>)) =
       Inr (Value (news_entry\<lparr>updatedAt := 200\<rparr>))
   \<and> createCmsEntry cmsConfig ''e9'' 200 blank_db (hello_params\<lparr>c_slug := ''news''\<rparr>) =
       (Inl (DuplicateSlug ''news'' ''blog''), blank_db)"
proof -
  let ?q = "hello_params\<lparr>c_slug := ''news''\<rparr>"
  let ?p1 = "(no_changes ''e1'')\<lparr>u_slug := Some ''news''\<rparr>"
  let ?p2 = "(no_changes ''e2'')\<lparr>u_slug := Some ''news''\<rparr>"
  have cols: "id_entry blank_entry = ''e1''" "id_entry news_entry = ''e2''"
    "collection blank_entry = ''blog''" "collection news_entry = ''blog''"
    "slug blank_entry = []" "slug news_entry = ''news''"
    by (simp_all add: blank_entry_def hello_entry_def news_entry_def)
  have entries: "cmsEntryTable blank_db = [blank_entry, news_entry]"
    by (simp add: blank_db_def empty_db_def)
  have inv: "unique_slugs (cmsEntryTable blank_db) \<and> distinct (map id_entry (cmsEntryTable blank_db))"
    by (simp add: unique_slugs_def entries cols)
  have found: "findFirst (eq id_entry ''e1'') (cmsEntryTable blank_db) = Some blank_entry"
    "findFirst (eq id_entry ''e2'') (cmsEntryTable blank_db) = Some news_entry"
    by (simp_all add: findFirst_def eq_def entries cols)
  have "updateCmsEntry 200 blank_db blank_slug_params =
      (Inl (if ([] :: string) = [] then UniqueConstraintViolation
            else DuplicateSlug [] (collection news_entry)), blank_db)"
  proof (rule mutations_keep_slugs_unique
        [of blank_db cmsConfig "''e9''" 200 ?q blank_slug_params "''e1''",
         THEN conjunct2, THEN conjunct2, THEN conjunct1, rule_format])
    show "findFirst (eq id_entry (u_id blank_slug_params)) (cmsEntryTable blank_db) =
            Some news_entry
          \<and> u_slug blank_slug_params = Some [] \<and> [] \<noteq> slug news_entry
          \<and> (\<exists>x\<in>set (cmsEntryTable blank_db).
                collection x = collection news_entry \<and> slug x = [])"
      using found(2) by (simp add: blank_slug_params_def no_changes_def entries cols)
  qed
  then have a: "updateCmsEntry 200 blank_db blank_slug_params =
      (Inl UniqueConstraintViolation, blank_db)"
    by simp
  have "updateCmsEntry 200 blank_db ?p1 =
      (Inl (if ''news'' = [] then UniqueConstraintViolation
            else DuplicateSlug ''news'' (collection blank_entry)), blank_db)"
  proof (rule mutations_keep_slugs_unique
        [of blank_db cmsConfig "''e9''" 200 ?q ?p1 "''e1''",
         THEN conjunct2, THEN conjunct2, THEN conjunct1, rule_format])
    show "findFirst (eq id_entry (u_id ?p1)) (cmsEntryTable blank_db) = Some blank_entry
          \<and> u_slug ?p1 = Some ''news'' \<and> ''news'' \<noteq> slug blank_entry
          \<and> (\<exists>x\<in>set (cmsEntryTable blank_db).
                collection x = collection blank_entry \<and> slug x = ''news'')"
      using found(1) by (simp add: no_changes_def entries cols)
  qed
  then have b: "updateCmsEntry 200 blank_db ?p1 = (Inl (DuplicateSlug ''news'' ''blog''), blank_db)"
    by (simp add: cols)
  have own: "findFirst (eq id_entry (u_id ?p2)) (cmsEntryTable blank_db) = Some news_entry
          \<and> u_slug ?p2 = Some (slug news_entry)"
    using found(2) by (simp add: no_changes_def cols)
  note fourth = mutations_keep_slugs_unique
        [of blank_db cmsConfig "''e9''" 200 ?q ?p2 "''e1''",
         THEN conjunct2, THEN conjunct2, THEN conjunct2, THEN spec, THEN mp, OF own]
  from fourth [THEN conjunct2, THEN conjunct2, THEN mp, OF inv]
  have "fst (updateCmsEntry 200 blank_db ?p2) = Inr (Value (set_columns ?p2 200 news_entry))" .
  moreover have "set_columns ?p2 200 news_entry = news_entry\<lparr>updatedAt := 200\<rparr>"
    by (simp add: set_columns_def no_changes_def news_entry_def)
  ultimately have c: "fst (updateCmsEntry 200 blank_db ?p2) =
      Inr (Value (news_entry\<lparr>updatedAt := 200\<rparr>))"
    by simp
  have "createCmsEntry cmsConfig ''e9'' 200 blank_db ?q =
      (Inl (DuplicateSlug (c_slug ?q) (coll_slug blogCollection)), blank_db)"
  proof (rule mutations_keep_slugs_unique
        [of blank_db cmsConfig "''e9''" 200 ?q ?p2 "''e1''",
         THEN conjunct2, THEN conjunct1, rule_format])
    show "cmsConfig (c_collectionSlug ?q) = Some blogCollection
          \<and> (\<exists>e\<in>set (cmsEntryTable blank_db).
                collection e = coll_slug blogCollection \<and> slug e = c_slug ?q)"
      by (simp add: cmsConfig_def blogCollection_def hello_params_def entries cols)
  qed
  then have d: "createCmsEntry cmsConfig ''e9'' 200 blank_db ?q =
      (Inl (DuplicateSlug ''news'' ''blog''), blank_db)"
    by (simp add: hello_params_def blogCollection_def)
  from inv a b c d show ?thesis by (intro conjI) (simp_all only:)
qed

end
